theory Spec2Isabelle
  imports Main
begin

section \<open>Data model\<close>

text \<open>
  The chat application keeps its whole session in the state of the \<open>App\<close> component
  (frontend/src/App.tsx). A message is \<open>{ text: string; isUser: boolean }\<close>, a thread is
  the interface \<open>ChatType\<close>. The field \<open>id\<close> of a thread is written \<open>id'\<close> and its
  \<open>messages\<close> field \<open>messages'\<close>, since \<open>id\<close> is a constant of HOL and \<open>messages\<close> is
  also the name of the state variable holding the live view.

  Thread identifiers are readings of \<open>Date.now()\<close>, hence integers. Strings are lists of
  code units; the model covers code units below 256.
\<close>

record Message =
  "text" :: string
  isUser :: bool

record ChatType =
  id' :: int
  name :: string
  date :: string
  messages' :: "Message list"

text \<open>
  The state variables of \<open>App\<close> (lines 17-31), together with the content of the
  \<open>localStorage\<close> key \<open>"chats"\<close>, which the component reads when it mounts and writes in
  its persistence effect. \<open>selectedChat\<close> and \<open>chatToDelete\<close> are \<open>number | null\<close>;
  \<open>localStorage.getItem\<close> returns \<open>null\<close> for a key that was never written.
\<close>

record AppState =
  chats :: "ChatType list"
  selectedChat :: "int option"
  messages :: "Message list"
  isSidebarOpen :: bool
  models :: "string list"
  selectedLLM :: string
  isModalOpen :: bool
  isToastVisible :: bool
  toastMessage :: string
  chatToDelete :: "int option"
  localStorage :: "string option"

section \<open>JSON text of a thread collection\<close>

text \<open>
  \<open>JSON.stringify\<close> and \<open>JSON.parse\<close> belong to the JavaScript runtime. They are modelled
  on the values this program stores: numbers that are integers, strings of code units
  below 256, booleans, \<open>null\<close>, arrays and objects (members in property order).
\<close>

datatype json =
    JNull
  | JBool bool
  | JNumber int
  | JString string
  | JArray "json list"
  | JObject "(string \<times> json) list"

definition dquote :: char where
  "dquote = CHR 0x22"

definition backslash :: char where
  "backslash = CHR 0x5C"

definition digit_char :: "nat \<Rightarrow> char" where
  "digit_char d = char_of (48 + d)"

definition hex_char :: "nat \<Rightarrow> char" where
  "hex_char d = (if d < 10 then char_of (48 + d) else char_of (87 + d))"

fun show_nat :: "nat \<Rightarrow> string" where
  "show_nat n = (if n < 10 then [digit_char n] else show_nat (n div 10) @ [digit_char (n mod 10)])"

definition show_int :: "int \<Rightarrow> string" where
  "show_int i = (if i < 0 then CHR ''-'' # show_nat (nat (- i)) else show_nat (nat i))"

text \<open>
  String quoting as \<open>JSON.stringify\<close> does it: the quote and the backslash are escaped,
  the control characters below 0x20 are written with their short escape where there is
  one and as \<open>\u00XX\<close> (lower-case hexadecimal) otherwise, every other code unit is
  copied.
\<close>

definition escape_char :: "char \<Rightarrow> string" where
  "escape_char c =
     (if c = dquote then [backslash, dquote]
      else if c = backslash then [backslash, backslash]
      else if c = CHR 0x08 then [backslash, CHR ''b'']
      else if c = CHR 0x0C then [backslash, CHR ''f'']
      else if c = CHR 0x0A then [backslash, CHR ''n'']
      else if c = CHR 0x0D then [backslash, CHR ''r'']
      else if c = CHR 0x09 then [backslash, CHR ''t'']
      else if (of_char c :: nat) < 32
        then [backslash, CHR ''u'', CHR ''0'', CHR ''0'',
              hex_char ((of_char c :: nat) div 16), hex_char ((of_char c :: nat) mod 16)]
      else [c])"

definition quote :: "string \<Rightarrow> string" where
  "quote s = dquote # concat (map escape_char s) @ [dquote]"

fun JSON_stringify :: "json \<Rightarrow> string"
  and stringify_elements :: "json list \<Rightarrow> string"
  and stringify_members :: "(string \<times> json) list \<Rightarrow> string" where
  "JSON_stringify JNull = ''null''"
| "JSON_stringify (JBool b) = (if b then ''true'' else ''false'')"
| "JSON_stringify (JNumber i) = show_int i"
| "JSON_stringify (JString s) = quote s"
| "JSON_stringify (JArray xs) = CHR ''['' # stringify_elements xs @ '']''"
| "JSON_stringify (JObject ms) = CHR ''{'' # stringify_members ms @ ''}''"
| "stringify_elements [] = []"
| "stringify_elements [x] = JSON_stringify x"
| "stringify_elements (x # y # ys) = JSON_stringify x @ CHR '','' # stringify_elements (y # ys)"
| "stringify_members [] = []"
| "stringify_members [(k, v)] = quote k @ CHR '':'' # JSON_stringify v"
| "stringify_members ((k, v) # m # ms) =
     quote k @ CHR '':'' # JSON_stringify v @ CHR '','' # stringify_members (m # ms)"

text \<open>The JavaScript values of the two interfaces, as \<open>JSON.stringify\<close> sees them.\<close>

definition message_json :: "Message \<Rightarrow> json" where
  "message_json m = JObject [(''text'', JString (text m)), (''isUser'', JBool (isUser m))]"

definition chat_json :: "ChatType \<Rightarrow> json" where
  "chat_json c =
     JObject [(''id'', JNumber (id' c)), (''name'', JString (name c)),
              (''date'', JString (date c)),
              (''messages'', JArray (map message_json (messages' c)))]"

definition chats_json :: "ChatType list \<Rightarrow> json" where
  "chats_json cs = JArray (map chat_json cs)"

section \<open>Reading JSON text\<close>

text \<open>
  What \<open>JSON.parse\<close> ends with when it returns no value. \<open>SyntaxError\<close> is the
  exception of the runtime. \<open>OutsideFragment\<close> marks a text whose value this model does
  not represent (a fraction or an exponent, an integer beyond the safe range, the
  number \<open>-0\<close>, a code unit above 255, an object with a repeated key or with a key made
  of digits, whose members the runtime merges or reorders): there the model gives no
  verdict on the runtime's result. \<open>FuelExhausted\<close> marks a bound on the nested calls that ran out,
  which does not happen to \<open>JSON_parse\<close>.
\<close>

datatype parse_failure = SyntaxError | OutsideFragment | FuelExhausted

definition is_ws :: "char \<Rightarrow> bool" where
  "is_ws c = (c = CHR '' '' \<or> c = CHR 0x09 \<or> c = CHR 0x0A \<or> c = CHR 0x0D)"

definition skip_ws :: "string \<Rightarrow> string" where
  "skip_ws cs = dropWhile is_ws cs"

definition is_digit :: "char \<Rightarrow> bool" where
  "is_digit c = (48 \<le> (of_char c :: nat) \<and> (of_char c :: nat) \<le> 57)"

definition digit_val :: "char \<Rightarrow> nat" where
  "digit_val c = of_char c - 48"

definition hex_val :: "char \<Rightarrow> nat option" where
  "hex_val c =
     (let n = (of_char c :: nat) in
      if 48 \<le> n \<and> n \<le> 57 then Some (n - 48)
      else if 97 \<le> n \<and> n \<le> 102 then Some (n - 87)
      else if 65 \<le> n \<and> n \<le> 70 then Some (n - 55)
      else None)"

fun parse_digits :: "nat \<Rightarrow> string \<Rightarrow> nat \<times> string" where
  "parse_digits acc [] = (acc, [])"
| "parse_digits acc (c # cs) =
     (if is_digit c then parse_digits (10 * acc + digit_val c) cs else (acc, c # cs))"

definition max_safe_integer :: nat where
  "max_safe_integer = 9007199254740991"

text \<open>
  A number: an optional minus sign, then \<open>0\<close> or a digit sequence without leading zero.
  A fraction or an exponent after it is outside the fragment.
\<close>

definition parse_number :: "string \<Rightarrow> parse_failure + (int \<times> string)" where
  "parse_number cs =
     (let neg = (cs \<noteq> [] \<and> hd cs = CHR ''-'');
          ds = (if neg then tl cs else cs)
      in case ds of
           [] \<Rightarrow> Inl SyntaxError
         | d # r \<Rightarrow>
             if \<not> is_digit d then Inl SyntaxError
             else
               let (n, rest) = (if d = CHR ''0'' then (0, r) else parse_digits 0 ds) in
               if rest \<noteq> [] \<and> hd rest \<in> {CHR ''.'', CHR ''e'', CHR ''E''} then Inl OutsideFragment
               else if n > max_safe_integer \<or> (neg \<and> n = 0) then Inl OutsideFragment
               else Inr (if neg then - int n else int n, rest))"

definition unescape :: "char \<Rightarrow> char option" where
  "unescape e =
     (if e = dquote then Some dquote
      else if e = backslash then Some backslash
      else if e = CHR ''/'' then Some CHR ''/''
      else if e = CHR ''b'' then Some (CHR 0x08)
      else if e = CHR ''f'' then Some (CHR 0x0C)
      else if e = CHR ''n'' then Some (CHR 0x0A)
      else if e = CHR ''r'' then Some (CHR 0x0D)
      else if e = CHR ''t'' then Some (CHR 0x09)
      else None)"

definition add_char ::
  "char \<Rightarrow> parse_failure + (string \<times> string) \<Rightarrow> parse_failure + (string \<times> string)" where
  "add_char c res = (case res of Inl e \<Rightarrow> Inl e | Inr (s, rest) \<Rightarrow> Inr (c # s, rest))"

text \<open>The characters of a string after its opening quote, up to the closing quote.\<close>

fun parse_chars :: "string \<Rightarrow> parse_failure + (string \<times> string)" where
  "parse_chars [] = Inl SyntaxError"
| "parse_chars (c # cs) =
     (if c = dquote then Inr ([], cs)
      else if c = backslash then
        (case cs of
           [] \<Rightarrow> Inl SyntaxError
         | e # r \<Rightarrow>
             if e = CHR ''u'' then
               (case r of
                  h1 # h2 # h3 # h4 # r' \<Rightarrow>
                    (case (hex_val h1, hex_val h2, hex_val h3, hex_val h4) of
                       (Some a, Some b, Some c', Some d) \<Rightarrow>
                         (let code = ((a * 16 + b) * 16 + c') * 16 + d in
                          if code < 256 then add_char (char_of code) (parse_chars r')
                          else Inl OutsideFragment)
                     | _ \<Rightarrow> Inl SyntaxError)
                | _ \<Rightarrow> Inl SyntaxError)
             else
               (case unescape e of
                  None \<Rightarrow> Inl SyntaxError
                | Some ch \<Rightarrow> add_char ch (parse_chars r)))
      else if (of_char c :: nat) < 32 then Inl SyntaxError
      else add_char c (parse_chars cs))"

text \<open>
  The member lists that \<open>JSON.parse\<close> turns into an object with the same properties in
  the same order: no key occurs twice (the runtime keeps the last value only) and no key
  is made of digits (the runtime lists integer-like keys first).
\<close>

definition index_like :: "string \<Rightarrow> bool" where
  "index_like k = (k \<noteq> [] \<and> list_all is_digit k)"

definition plain_keys :: "(string \<times> json) list \<Rightarrow> bool" where
  "plain_keys ms = (distinct (map fst ms) \<and> \<not> list_ex index_like (map fst ms))"

text \<open>
  Values, array elements and object members, by recursive descent. The first argument
  bounds the number of nested calls; \<open>JSON_parse\<close> starts with twice the length of the
  text and two more, which is never used up (\<open>JSON_parse_verdict\<close> below).
\<close>

fun parse_value :: "nat \<Rightarrow> string \<Rightarrow> parse_failure + (json \<times> string)"
  and parse_elements :: "nat \<Rightarrow> string \<Rightarrow> parse_failure + (json list \<times> string)"
  and parse_members :: "nat \<Rightarrow> string \<Rightarrow> parse_failure + ((string \<times> json) list \<times> string)"
where
  "parse_value 0 cs = Inl FuelExhausted"
| "parse_value (Suc n) cs =
     (case skip_ws cs of
        [] \<Rightarrow> Inl SyntaxError
      | c # r \<Rightarrow>
          if c = CHR ''{'' then
            (if skip_ws r \<noteq> [] \<and> hd (skip_ws r) = CHR ''}'' then Inr (JObject [], tl (skip_ws r))
             else (case parse_members n r of
                     Inl e \<Rightarrow> Inl e
                   | Inr (ms, r') \<Rightarrow>
                       if plain_keys ms then Inr (JObject ms, r') else Inl OutsideFragment))
          else if c = CHR ''['' then
            (if skip_ws r \<noteq> [] \<and> hd (skip_ws r) = CHR '']'' then Inr (JArray [], tl (skip_ws r))
             else (case parse_elements n r of
                     Inl e \<Rightarrow> Inl e
                   | Inr (vs, r') \<Rightarrow> Inr (JArray vs, r')))
          else if c = dquote then
            (case parse_chars r of
               Inl e \<Rightarrow> Inl e
             | Inr (s, r') \<Rightarrow> Inr (JString s, r'))
          else if c = CHR ''-'' \<or> is_digit c then
            (case parse_number (c # r) of
               Inl e \<Rightarrow> Inl e
             | Inr (i, r') \<Rightarrow> Inr (JNumber i, r'))
          else if take 4 (c # r) = ''true'' then Inr (JBool True, drop 4 (c # r))
          else if take 5 (c # r) = ''false'' then Inr (JBool False, drop 5 (c # r))
          else if take 4 (c # r) = ''null'' then Inr (JNull, drop 4 (c # r))
          else Inl SyntaxError)"
| "parse_elements 0 cs = Inl FuelExhausted"
| "parse_elements (Suc n) cs =
     (case parse_value n cs of
        Inl e \<Rightarrow> Inl e
      | Inr (v, r) \<Rightarrow>
          (case skip_ws r of
             [] \<Rightarrow> Inl SyntaxError
           | c # r' \<Rightarrow>
               if c = CHR '','' then
                 (case parse_elements n r' of
                    Inl e \<Rightarrow> Inl e
                  | Inr (vs, r'') \<Rightarrow> Inr (v # vs, r''))
               else if c = CHR '']'' then Inr ([v], r')
               else Inl SyntaxError))"
| "parse_members 0 cs = Inl FuelExhausted"
| "parse_members (Suc n) cs =
     (case skip_ws cs of
        [] \<Rightarrow> Inl SyntaxError
      | q # r \<Rightarrow>
          if q \<noteq> dquote then Inl SyntaxError
          else
            (case parse_chars r of
               Inl e \<Rightarrow> Inl e
             | Inr (k, r1) \<Rightarrow>
                 (case skip_ws r1 of
                    [] \<Rightarrow> Inl SyntaxError
                  | c1 # r2 \<Rightarrow>
                      if c1 \<noteq> CHR '':'' then Inl SyntaxError
                      else
                        (case parse_value n r2 of
                           Inl e \<Rightarrow> Inl e
                         | Inr (v, r3) \<Rightarrow>
                             (case skip_ws r3 of
                                [] \<Rightarrow> Inl SyntaxError
                              | c3 # r4 \<Rightarrow>
                                  if c3 = CHR '','' then
                                    (case parse_members n r4 of
                                       Inl e \<Rightarrow> Inl e
                                     | Inr (ms, r5) \<Rightarrow> Inr ((k, v) # ms, r5))
                                  else if c3 = CHR ''}'' then Inr ([(k, v)], r4)
                                  else Inl SyntaxError)))))"

text \<open>\<open>JSON.parse\<close>: one value, with nothing but white space after it.\<close>

definition JSON_parse :: "string \<Rightarrow> parse_failure + json" where
  "JSON_parse cs =
     (case parse_value (2 * length cs + 2) cs of
        Inl e \<Rightarrow> Inl e
      | Inr (v, rest) \<Rightarrow> if skip_ws rest = [] then Inr v else Inl SyntaxError)"

text \<open>
  The values that are thread collections of the shape this model's records have, read
  back into records. (TypeScript does not check the value \<open>JSON.parse\<close> returns; a value
  of another shape is not a state of this model.)
\<close>

definition as_number :: "json \<Rightarrow> int option" where
  "as_number j = (case j of JNumber i \<Rightarrow> Some i | _ \<Rightarrow> None)"

definition as_string :: "json \<Rightarrow> string option" where
  "as_string j = (case j of JString s \<Rightarrow> Some s | _ \<Rightarrow> None)"

definition as_bool :: "json \<Rightarrow> bool option" where
  "as_bool j = (case j of JBool b \<Rightarrow> Some b | _ \<Rightarrow> None)"

definition as_array :: "json \<Rightarrow> json list option" where
  "as_array j = (case j of JArray xs \<Rightarrow> Some xs | _ \<Rightarrow> None)"

definition as_object :: "json \<Rightarrow> (string \<times> json) list option" where
  "as_object j = (case j of JObject ms \<Rightarrow> Some ms | _ \<Rightarrow> None)"

definition message_of_json :: "json \<Rightarrow> Message option" where
  "message_of_json j =
     (case as_object j of
        None \<Rightarrow> None
      | Some ms \<Rightarrow>
          if map fst ms \<noteq> [''text'', ''isUser''] then None
          else (case (as_string (snd (ms ! 0)), as_bool (snd (ms ! 1))) of
                  (Some t, Some b) \<Rightarrow> Some \<lparr>text = t, isUser = b\<rparr>
                | _ \<Rightarrow> None))"

definition chat_of_json :: "json \<Rightarrow> ChatType option" where
  "chat_of_json j =
     (case as_object j of
        None \<Rightarrow> None
      | Some ms \<Rightarrow>
          if map fst ms \<noteq> [''id'', ''name'', ''date'', ''messages''] then None
          else (case (as_number (snd (ms ! 0)), as_string (snd (ms ! 1)),
                      as_string (snd (ms ! 2)), as_array (snd (ms ! 3))) of
                  (Some i, Some n, Some d, Some xs) \<Rightarrow>
                    (case those (map message_of_json xs) of
                       None \<Rightarrow> None
                     | Some msgs \<Rightarrow> Some \<lparr>id' = i, name = n, date = d, messages' = msgs\<rparr>)
                | _ \<Rightarrow> None))"

definition chats_of_json :: "json \<Rightarrow> ChatType list option" where
  "chats_of_json j =
     (case as_array j of None \<Rightarrow> None | Some cs \<Rightarrow> those (map chat_of_json cs))"

text \<open>
  The integers a number holds exactly, which \<open>JSON.stringify\<close> writes in plain decimal
  digits; the readings of \<open>Date.now()\<close> are among them.
\<close>

definition safe_id :: "int \<Rightarrow> bool" where
  "safe_id i = (- int max_safe_integer \<le> i \<and> i \<le> int max_safe_integer)"

text \<open>Values all of whose numbers are such integers and all of whose objects have plain keys.\<close>

fun safe_json :: "json \<Rightarrow> bool" where
  "safe_json (JNumber i) = safe_id i"
| "safe_json (JArray xs) = (\<forall>x \<in> set xs. safe_json x)"
| "safe_json (JObject ms) = (plain_keys ms \<and> (\<forall>m \<in> set ms. safe_json (snd m)))"
| "safe_json _ = True"

text \<open>What follows a value inside a text that \<open>JSON.stringify\<close> wrote, and what starts one.\<close>

definition number_end :: "string \<Rightarrow> bool" where
  "number_end rest =
     (rest = [] \<or> hd rest = CHR '','' \<or> hd rest = CHR '']'' \<or> hd rest = CHR ''}'')"

definition value_start :: "char \<Rightarrow> bool" where
  "value_start c =
     (c = CHR ''{'' \<or> c = CHR ''['' \<or> c = dquote \<or> c = CHR ''-'' \<or> is_digit c
      \<or> c = CHR ''n'' \<or> c = CHR ''t'' \<or> c = CHR ''f'')"



section \<open>Persistence\<close>

text \<open>
  \<open>saveAll\<close> is the text the persistence effect (lines 33-35) hands to
  \<open>localStorage.setItem("chats", _)\<close>: \<open>JSON.stringify(chats)\<close>.
\<close>

definition saveAll :: "ChatType list \<Rightarrow> string" where
  "saveAll cs = JSON_stringify (chats_json cs)"

text \<open>
  \<open>loadAll\<close> is the initial value of \<open>chats\<close> (lines 17-19):
  \<open>JSON.parse(localStorage.getItem("chats") || "[]")\<close>. A missing entry (\<open>null\<close>) and the
  empty string are falsy and give the text \<open>[]\<close>. The call is not inside a \<open>try\<close>, so a
  \<open>SyntaxError\<close> of \<open>JSON.parse\<close> leaves the initializer and the component does not mount.
\<close>

definition loadAll :: "string option \<Rightarrow> parse_failure + json" where
  "loadAll stored =
     JSON_parse (case stored of None \<Rightarrow> ''[]'' | Some t \<Rightarrow> if t = [] then ''[]'' else t)"

text \<open>
  \<open>setChats\<close> with an updater function. The effect of lines 33-35 depends on \<open>chats\<close>
  and runs when the render that follows the update is committed, so every \<open>setChats\<close>
  is followed by the write of the new collection to \<open>localStorage\<close>; no handler calls
  \<open>setChats\<close> twice between two renders.
\<close>

definition setChats :: "(ChatType list \<Rightarrow> ChatType list) \<Rightarrow> AppState \<Rightarrow> AppState" where
  "setChats f s =
     (let cs = f (chats s) in s\<lparr>chats := cs, localStorage := Some (saveAll cs)\<rparr>)"

section \<open>Thread operations\<close>

text \<open>\<open>handleSelectChat\<close> (lines 56-62): \<open>Array.prototype.find\<close> returns the first match.\<close>

definition handleSelectChat :: "int \<Rightarrow> AppState \<Rightarrow> AppState" where
  "handleSelectChat chatId s =
     (case find (\<lambda>c. id' c = chatId) (chats s) of
        Some chat \<Rightarrow> s\<lparr>selectedChat := Some chatId, messages := messages' chat\<rparr>
      | None \<Rightarrow> s)"

text \<open>
  \<open>handleAddChat\<close> (lines 64-74). The readings of \<open>Date.now()\<close> and of
  \<open>new Date().toLocaleDateString()\<close> are inputs.
\<close>

definition handleAddChat :: "int \<Rightarrow> string \<Rightarrow> AppState \<Rightarrow> AppState" where
  "handleAddChat now today s =
     (let newChat = \<lparr>id' = now, name = ''Chat '' @ show_nat (length (chats s) + 1),
                     date = today, messages' = []\<rparr>
      in (setChats (\<lambda>_. chats s @ [newChat]) s)\<lparr>selectedChat := Some now, messages := []\<rparr>)"

text \<open>\<open>handleRenameChat\<close> (lines 76-84).\<close>

definition handleRenameChat :: "int \<Rightarrow> string \<Rightarrow> AppState \<Rightarrow> AppState" where
  "handleRenameChat chatId newName s =
     (setChats (map (\<lambda>chat. if id' chat = chatId then chat\<lparr>name := newName\<rparr> else chat)) s)
       \<lparr>toastMessage := ''Chat renamed successfully!'', isToastVisible := True\<rparr>"

text \<open>\<open>handleDeleteChat\<close> (lines 86-89) only opens the confirmation prompt.\<close>

definition handleDeleteChat :: "int \<Rightarrow> AppState \<Rightarrow> AppState" where
  "handleDeleteChat chatId s = s\<lparr>isModalOpen := True, chatToDelete := Some chatId\<rparr>"

text \<open>\<open>confirmDeleteChat\<close> (lines 91-101).\<close>

definition confirmDeleteChat :: "AppState \<Rightarrow> AppState" where
  "confirmDeleteChat s =
     (case chatToDelete s of
        None \<Rightarrow> s
      | Some d \<Rightarrow>
          (setChats (\<lambda>_. filter (\<lambda>chat. id' chat \<noteq> d) (chats s)) s)
            \<lparr>selectedChat := None, messages := [], chatToDelete := None,
             isModalOpen := False, toastMessage := ''Chat deleted successfully!'',
             isToastVisible := True\<rparr>)"

text \<open>\<open>closeModal\<close> (lines 103-106), the handler of the prompt's Cancel button.\<close>

definition closeModal :: "AppState \<Rightarrow> AppState" where
  "closeModal s = s\<lparr>isModalOpen := False, chatToDelete := None\<rparr>"

text \<open>\<open>handleLLMChange\<close> (lines 220-222).\<close>

definition handleLLMChange :: "string \<Rightarrow> AppState \<Rightarrow> AppState" where
  "handleLLMChange llm s = s\<lparr>selectedLLM := llm\<rparr>"

section \<open>Model list\<close>

text \<open>
  What \<open>GET /models\<close> can come back with: the \<open>fetch\<close> promise rejects (network error),
  the status is not a success, the body is not JSON, or the body is
  \<open>{ models: [...] }\<close>.
\<close>

datatype models_reply =
    ModelsFetchRejected
  | ModelsNotOk
  | ModelsBadJson
  | ModelsOk "string list"

text \<open>
  \<open>fetchModels\<close> (lines 38-52). Every failure ends in the \<open>catch\<close> block, which only logs.
\<close>

definition fetchModels :: "models_reply \<Rightarrow> AppState \<Rightarrow> AppState" where
  "fetchModels reply s =
     (case reply of
        ModelsOk ms \<Rightarrow>
          (case ms of
             [] \<Rightarrow> s\<lparr>models := ms\<rparr>
           | m # _ \<Rightarrow> s\<lparr>models := ms, selectedLLM := m\<rparr>)
      | _ \<Rightarrow> s)"

text \<open>
  What the main pane renders (lines 244-278): the model picker and the chat when there
  are models, the notice "No LLM models available" otherwise.
\<close>

datatype main_pane = ModelPickerAndChat | NoModelsAvailable

definition main_pane_of :: "AppState \<Rightarrow> main_pane" where
  "main_pane_of s = (if length (models s) > 0 then ModelPickerAndChat else NoModelsAvailable)"

section \<open>Sending a message\<close>

text \<open>The JSON body of \<open>POST /send-message\<close> (lines 142-147).\<close>

record Request =
  content :: string
  model :: string
  history :: "Message list"
  chat_id :: int

text \<open>
  What the request can come back with. The \<open>fetch\<close> promise rejects, or it resolves to a
  response with its \<open>ok\<close> flag and its body (\<open>null\<close> or a stream). A stream delivers its
  chunks in order and then either signals the end of the data or fails a \<open>read()\<close>.
\<close>

datatype stream_end = EndOfData | ReadRejected

datatype 'c response =
    FetchRejected
  | Response bool "('c list \<times> stream_end) option"

text \<open>
  What a handler can end with besides returning. \<open>TypeError\<close> carries the state the
  updates queued before the throw lead to. \<open>SparseArray\<close> stands for an assignment
  \<open>a[i] = v\<close> beyond the end of \<open>a\<close>: JavaScript then extends the array with holes,
  which the dense lists of this model do not represent.
\<close>

datatype failure = TypeError AppState | SparseArray

text \<open>\<open>newMessages[i] = v\<close> on a copy of the array (lines 166-171).\<close>

definition set_index :: "Message list \<Rightarrow> nat \<Rightarrow> Message \<Rightarrow> failure + Message list" where
  "set_index xs i v =
     (if i < length xs then Inr (xs[i := v])
      else if i = length xs then Inr (xs @ [v])
      else Inl SparseArray)"

text \<open>The state update of one chunk (lines 165-172), applied to the current state.\<close>

definition chunk_update :: "nat \<Rightarrow> string \<Rightarrow> AppState \<Rightarrow> failure + AppState" where
  "chunk_update llmResponseIndex llmResponseText s =
     (case set_index (messages s) llmResponseIndex
             \<lparr>text = llmResponseText, isUser = False\<rparr> of
        Inl e \<Rightarrow> Inl e
      | Inr newMessages \<Rightarrow> Inr (s\<lparr>messages := newMessages\<rparr>))"

text \<open>
  The read loop (lines 159-173) over the chunks the stream delivers, with the decoder's
  \<open>decode\<close> as a parameter. It returns the accumulated text and the state after each
  chunk, in order.
\<close>

fun read_loop ::
  "('c \<Rightarrow> string) \<Rightarrow> nat \<Rightarrow> string \<Rightarrow> 'c list \<Rightarrow> AppState \<Rightarrow> failure + (string \<times> AppState list)"
where
  "read_loop decode llmResponseIndex llmResponseText [] s = Inr (llmResponseText, [])"
| "read_loop decode llmResponseIndex llmResponseText (v # rest) s =
     (let acc = llmResponseText @ decode v in
      case chunk_update llmResponseIndex acc s of
        Inl e \<Rightarrow> Inl e
      | Inr s' \<Rightarrow>
          (case read_loop decode llmResponseIndex acc rest s' of
             Inl e \<Rightarrow> Inl e
           | Inr (final_text, later) \<Rightarrow> Inr (final_text, s' # later)))"

text \<open>
  What one call of \<open>handleSendMessage\<close> did: the requests it issued, the states of the
  live view while the reply was streaming (the state with the placeholder, then the
  state after each chunk), and the state it ends in.
\<close>

record SendResult =
  requests :: "Request list"
  live :: "AppState list"
  final :: AppState

text \<open>
  The updater \<open>prevChats.map(chat => chat.id === selectedChat ? {...chat, messages} : chat)\<close>
  of lines 118-127, 175-187 and 204-213.
\<close>

definition with_messages :: "int \<Rightarrow> Message list \<Rightarrow> ChatType list \<Rightarrow> ChatType list" where
  "with_messages sel ms prevChats =
     map (\<lambda>chat. if id' chat = sel then chat\<lparr>messages' := ms\<rparr> else chat) prevChats"

text \<open>
  \<open>handleSendMessage\<close> (lines 108-192). The optional argument \<open>updatedMessages\<close> is
  \<open>None\<close> when it is left out; an array is truthy even when it is empty. A string is
  falsy exactly when it is empty.

  First the history the request carries, the local \<open>updatedChatMessages\<close> of
  lines 113-115.
\<close>

definition updatedChatMessages :: "string \<Rightarrow> Message list option \<Rightarrow> AppState \<Rightarrow> Message list" where
  "updatedChatMessages message updatedMessages s =
     (case updatedMessages of
        None \<Rightarrow> messages s @ [\<lparr>text = message, isUser = True\<rparr>]
      | Some given \<Rightarrow> given)"

text \<open>
  The state updates queued before the request goes out (lines 114-134): without
  \<open>updatedMessages\<close> the user's message is appended to the live view and stored in the
  selected thread; in both cases the live view then becomes the history followed by the
  empty assistant placeholder.
\<close>

definition before_request :: "int \<Rightarrow> string \<Rightarrow> Message list option \<Rightarrow> AppState \<Rightarrow> AppState" where
  "before_request sel message updatedMessages s =
     (let hist = updatedChatMessages message updatedMessages s;
          s1 = (case updatedMessages of
                  None \<Rightarrow> setChats (with_messages sel hist) (s\<lparr>messages := hist\<rparr>)
                | Some given \<Rightarrow> s)
      in s1\<lparr>messages := hist @ [\<lparr>text = [], isUser = False\<rparr>]\<rparr>)"

definition handleSendMessage ::
  "('c \<Rightarrow> string) \<Rightarrow> string \<Rightarrow> Message list option \<Rightarrow> 'c response \<Rightarrow> AppState
     \<Rightarrow> failure + SendResult"
where
  "handleSendMessage decode message updatedMessages resp s =
     (case selectedChat s of
        None \<Rightarrow> Inr \<lparr>requests = [], live = [], final = s\<rparr>
      | Some sel \<Rightarrow>
          if selectedLLM s = [] then Inr \<lparr>requests = [], live = [], final = s\<rparr>
          else
            let hist = updatedChatMessages message updatedMessages s;
                llmResponseIndex = length hist;
                s2 = before_request sel message updatedMessages s;
                req = \<lparr>content = message, model = selectedLLM s, history = hist, chat_id = sel\<rparr>;
                aborted = Inr \<lparr>requests = [req], live = [s2], final = s2\<rparr>
            in
              case resp of
                FetchRejected \<Rightarrow> aborted
              | Response ok body \<Rightarrow>
                  (case body of
                     None \<Rightarrow> aborted
                   | Some (chunks, ending) \<Rightarrow>
                       if \<not> ok then aborted
                       else
                         (case read_loop decode llmResponseIndex [] chunks s2 of
                            Inl e \<Rightarrow> Inl e
                          | Inr (llmResponseText, later) \<Rightarrow>
                              let s3 = last (s2 # later) in
                              (case ending of
                                 ReadRejected \<Rightarrow>
                                   Inr \<lparr>requests = [req], live = s2 # later, final = s3\<rparr>
                               | EndOfData \<Rightarrow>
                                   Inr \<lparr>requests = [req], live = s2 # later,
                                        final = setChats
                                          (with_messages sel
                                             (hist @ [\<lparr>text = llmResponseText, isUser = False\<rparr>]))
                                          s3\<rparr>))))"

text \<open>
  \<open>updateMessage\<close> (lines 194-218). \<open>truncatedMessages[index].text\<close> throws a
  \<open>TypeError\<close> when \<open>index\<close> is not an index of the truncated array.
\<close>

definition updateMessage ::
  "('c \<Rightarrow> string) \<Rightarrow> nat \<Rightarrow> string \<Rightarrow> 'c response \<Rightarrow> AppState \<Rightarrow> failure + SendResult"
where
  "updateMessage decode index newText resp s =
     (case selectedChat s of
        None \<Rightarrow> Inr \<lparr>requests = [], live = [], final = s\<rparr>
      | Some sel \<Rightarrow>
          let updatedMessages =
                map (\<lambda>(i, msg). if i = index then msg\<lparr>text := newText\<rparr> else msg)
                  (enumerate 0 (messages s));
              truncatedMessages = take (index + 1) updatedMessages;
              s1 = setChats (with_messages sel truncatedMessages)
                     (s\<lparr>messages := truncatedMessages\<rparr>)
          in
            if index < length truncatedMessages
            then handleSendMessage decode (text (truncatedMessages ! index))
                   (Some truncatedMessages) resp s1
            else Inl (TypeError s1))"

section \<open>Sessions\<close>

text \<open>
  What happens to the component, one event at a time: the user's actions on the sidebar,
  the prompt, the model picker and the chat, and the reply to the model list request. A
  send or an edit is taken with the response it gets and runs to its end before the next
  event; \<open>AddChat\<close> carries the readings of the clock and of the date.
\<close>

datatype 'c event =
    AddChat int string
  | SelectChat int
  | RenameChat int string
  | DeleteChat int
  | ConfirmDelete
  | CloseModal
  | LLMChange string
  | ModelsFetched models_reply
  | Send string "'c response"
  | Edit nat string "'c response"

text \<open>The handler each event runs, and the state it leaves.\<close>

fun dispatch :: "('c \<Rightarrow> string) \<Rightarrow> 'c event \<Rightarrow> AppState \<Rightarrow> failure + AppState" where
  "dispatch decode (AddChat now today) s = Inr (handleAddChat now today s)"
| "dispatch decode (SelectChat chatId) s = Inr (handleSelectChat chatId s)"
| "dispatch decode (RenameChat chatId newName) s = Inr (handleRenameChat chatId newName s)"
| "dispatch decode (DeleteChat chatId) s = Inr (handleDeleteChat chatId s)"
| "dispatch decode ConfirmDelete s = Inr (confirmDeleteChat s)"
| "dispatch decode CloseModal s = Inr (closeModal s)"
| "dispatch decode (LLMChange llm) s = Inr (handleLLMChange llm s)"
| "dispatch decode (ModelsFetched reply) s = Inr (fetchModels reply s)"
| "dispatch decode (Send message resp) s =
     map_sum id final (handleSendMessage decode message None resp s)"
| "dispatch decode (Edit index newText resp) s =
     map_sum id final (updateMessage decode index newText resp s)"

text \<open>
  A sequence of events. A \<open>TypeError\<close> thrown by a handler ends that handler only: the
  updates it queued are applied and the component goes on.
\<close>

fun run :: "('c \<Rightarrow> string) \<Rightarrow> 'c event list \<Rightarrow> AppState \<Rightarrow> failure + AppState" where
  "run decode [] s = Inr s"
| "run decode (e # es) s =
     (case dispatch decode e s of
        Inr s' \<Rightarrow> run decode es s'
      | Inl (TypeError s') \<Rightarrow> run decode es s'
      | Inl SparseArray \<Rightarrow> Inl SparseArray)"

text \<open>
  The collections whose identifiers are safe integers, the events whose clock reading
  is one, and the states whose stored text is the saved form of the collection in
  memory.
\<close>

definition safe_ids :: "ChatType list \<Rightarrow> bool" where
  "safe_ids cs = list_all safe_id (map id' cs)"

fun fresh_id_safe :: "'c event \<Rightarrow> bool" where
  "fresh_id_safe (AddChat now today) = safe_id now"
| "fresh_id_safe _ = True"

definition in_sync :: "AppState \<Rightarrow> bool" where
  "in_sync s = (localStorage s = Some (saveAll (chats s)) \<and> safe_ids (chats s))"

section \<open>Observations and sample sessions\<close>

text \<open>The text the live view shows at an index, if it has a message there.\<close>

definition text_at :: "nat \<Rightarrow> AppState \<Rightarrow> string option" where
  "text_at i s = (if i < length (messages s) then Some (text (messages s ! i)) else None)"

definition live_texts :: "nat \<Rightarrow> SendResult \<Rightarrow> string option list" where
  "live_texts i r = map (text_at i) (live r)"

text \<open>The chunks a response delivers before its stream ends or fails.\<close>

definition delivered :: "'c response \<Rightarrow> 'c list" where
  "delivered resp =
     (case resp of
        FetchRejected \<Rightarrow> []
      | Response ok body \<Rightarrow>
          (case body of None \<Rightarrow> [] | Some (chunks, ending) \<Rightarrow> if ok then chunks else []))"

text \<open>Whether the response streams to the end of its data.\<close>

definition completed :: "'c response \<Rightarrow> bool" where
  "completed resp =
     (case resp of
        FetchRejected \<Rightarrow> False
      | Response ok body \<Rightarrow>
          (case body of None \<Rightarrow> False | Some (chunks, ending) \<Rightarrow> ok \<and> ending = EndOfData))"

text \<open>
  The state of \<open>App\<close> once it is mounted on a stored collection \<open>cs\<close>: the initial values
  of lines 17-31, and \<open>localStorage\<close> as the persistence effect leaves it after the first
  render.
\<close>

definition initialState :: "ChatType list \<Rightarrow> AppState" where
  "initialState cs =
     \<lparr>chats = cs, selectedChat = None, messages = [], isSidebarOpen = True, models = [],
      selectedLLM = [], isModalOpen = False, isToastVisible = False, toastMessage = [],
      chatToDelete = None, localStorage = Some (saveAll cs)\<rparr>"

text \<open>Two threads and a session over them, for closed instances of the theorems.\<close>

definition thread_a :: ChatType where
  "thread_a =
     \<lparr>id' = 1700000000000, name = ''Chat 1'', date = ''11/14/2023'',
      messages' = [\<lparr>text = ''ping'', isUser = True\<rparr>, \<lparr>text = ''pong'', isUser = False\<rparr>]\<rparr>"

definition thread_b :: ChatType where
  "thread_b =
     \<lparr>id' = 1700000000500, name = ''Chat 2'', date = ''11/14/2023'', messages' = []\<rparr>"

definition thread_c :: ChatType where
  "thread_c = \<lparr>id' = 1700000001000, name = ''Chat 3'', date = ''11/15/2023'', messages' = []\<rparr>"

definition session :: "int option \<Rightarrow> Message list \<Rightarrow> AppState" where
  "session sel view =
     \<lparr>chats = [thread_a, thread_b], selectedChat = sel, messages = view,
      isSidebarOpen = True, models = [''a'', ''b''], selectedLLM = ''a'',
      isModalOpen = False, isToastVisible = False, toastMessage = [],
      chatToDelete = None, localStorage = Some (saveAll [thread_a, thread_b])\<rparr>"

text \<open>
  A session in which the model list came back as \<open>["", "b"]\<close>, so that the picker and
  the chat are shown while the selected model is the empty string, with the first
  thread selected.
\<close>

definition blank_model_session :: AppState where
  "blank_model_session =
     handleSelectChat (id' thread_a)
       (fetchModels (ModelsOk [[], ''b'']) (initialState [thread_a, thread_b]))"

text \<open>
  The second thread after a send of "hi" that got a response without success status and
  without body.
\<close>

definition failed_once :: AppState where
  "failed_once =
     final (projr (handleSendMessage id ''hi'' None (Response False None :: string response)
                     (session (Some (id' thread_b)) [])))"

text \<open>
  The same send, streaming the chunks "Hel" and "lo", when the first chunk has been read.
\<close>

definition mid_stream :: AppState where
  "mid_stream =
     live (projr (handleSendMessage id ''hi'' None
                    (Response True (Some ([''Hel'', ''lo''], EndOfData)))
                    (session (Some (id' thread_b)) []))) ! 1"

section \<open>Properties\<close>

subsection \<open>Writing and reading back JSON text\<close>

declare show_nat.simps [simp del]

lemma of_char_digit_char: "d < 10 \<Longrightarrow> (of_char (digit_char d) :: nat) = 48 + d"
  by (simp add: digit_char_def)

lemma is_digit_digit_char: "d < 10 \<Longrightarrow> is_digit (digit_char d)"
  by (simp add: is_digit_def of_char_digit_char)

lemma digit_val_digit_char: "d < 10 \<Longrightarrow> digit_val (digit_char d) = d"
  by (simp add: digit_val_def of_char_digit_char)

lemma show_nat_digits: "list_all is_digit (show_nat n)"
proof (induction n rule: show_nat.induct)
  case (1 n)
  show ?case
  proof (cases "n < 10")
    case True
    then show ?thesis by (simp add: show_nat.simps [of n] is_digit_digit_char)
  next
    case False
    with 1 show ?thesis by (simp add: show_nat.simps [of n] is_digit_digit_char)
  qed
qed

lemma show_nat_not_Nil: "show_nat n \<noteq> []"
  by (simp add: show_nat.simps [of n])

lemma show_nat_hd: "0 < n \<Longrightarrow> hd (show_nat n) \<noteq> CHR ''0''"
proof (induction n rule: show_nat.induct)
  case (1 n)
  show ?case
  proof (cases "n < 10")
    case True
    have "(of_char (digit_char n) :: nat) \<noteq> of_char CHR ''0''"
      using True "1.prems" by (simp add: of_char_digit_char)
    then have "digit_char n \<noteq> CHR ''0''" by auto
    with True show ?thesis by (simp add: show_nat.simps [of n])
  next
    case False
    then have "0 < n div 10" by simp
    with 1 False have "hd (show_nat (n div 10)) \<noteq> CHR ''0''" by simp
    with False show ?thesis
      by (simp add: show_nat.simps [of n] show_nat_not_Nil)
  qed
qed

lemma parse_digits_all:
  "list_all is_digit ds \<Longrightarrow> rest = [] \<or> \<not> is_digit (hd rest) \<Longrightarrow>
   parse_digits acc (ds @ rest) = (foldl (\<lambda>a c. 10 * a + digit_val c) acc ds, rest)"
proof (induction ds arbitrary: acc)
  case Nil
  then show ?case by (cases rest) auto
next
  case (Cons d ds)
  then show ?case by simp
qed

lemma foldl_show_nat: "foldl (\<lambda>a c. 10 * a + digit_val c) 0 (show_nat n) = n"
proof (induction n rule: show_nat.induct)
  case (1 n)
  show ?case
  proof (cases "n < 10")
    case True
    then show ?thesis by (simp add: show_nat.simps [of n] digit_val_digit_char)
  next
    case False
    with 1 show ?thesis by (simp add: show_nat.simps [of n] digit_val_digit_char)
  qed
qed

lemma parse_digits_show_nat:
  "rest = [] \<or> \<not> is_digit (hd rest) \<Longrightarrow> parse_digits 0 (show_nat n @ rest) = (n, rest)"
  by (simp add: parse_digits_all show_nat_digits foldl_show_nat)

lemma number_end_facts:
  assumes "number_end rest"
  shows "rest = [] \<or> \<not> is_digit (hd rest)"
    and "\<not> (rest \<noteq> [] \<and> hd rest \<in> {CHR ''.'', CHR ''e'', CHR ''E''})"
  using assms by (auto simp: number_end_def is_digit_def)

lemma parse_number_nat:
  assumes "number_end rest" and "n \<le> max_safe_integer"
  shows "parse_number (show_nat n @ rest) = Inr (int n, rest)"
proof -
  obtain d ds where ds: "show_nat n = d # ds"
    using show_nat_not_Nil [of n] by (cases "show_nat n") auto
  have dig: "is_digit d"
    using show_nat_digits [of n] ds by simp
  have not_minus: "d \<noteq> CHR ''-''"
    using dig by (auto simp: is_digit_def)
  show ?thesis
  proof (cases "n = 0")
    case True
    have "(of_char (digit_char 0) :: nat) = of_char CHR ''0''"
      by (simp add: of_char_digit_char)
    then have "digit_char 0 = CHR ''0''"
      by (simp only: of_char_eq_iff)
    with True have "show_nat n = ''0''"
      by (simp add: show_nat.simps [of 0])
    with assms number_end_facts [OF assms(1)] show ?thesis
      by (simp add: parse_number_def True is_digit_def)
  next
    case False
    then have "d \<noteq> CHR ''0''"
      using show_nat_hd [of n] ds by simp
    moreover have "parse_digits 0 (d # ds @ rest) = (n, rest)"
      using parse_digits_show_nat [OF number_end_facts(1) [OF assms(1)], of n] ds by simp
    ultimately show ?thesis
      using assms(2) number_end_facts(2) [OF assms(1)] dig not_minus
      by (simp add: parse_number_def ds)
  qed
qed

lemma parse_number_show_int:
  assumes "number_end rest" and "safe_id i"
  shows "parse_number (show_int i @ rest) = Inr (i, rest)"
proof (cases "i < 0")
  case False
  with assms show ?thesis
    using parse_number_nat [of rest "nat i"]
    by (simp add: show_int_def safe_id_def)
next
  case True
  let ?n = "nat (- i)"
  have pos: "0 < ?n" using True by simp
  have le: "?n \<le> max_safe_integer" using assms(2) True by (simp add: safe_id_def)
  obtain d ds where ds: "show_nat ?n = d # ds"
    using show_nat_not_Nil [of ?n] by (cases "show_nat ?n") auto
  have dig: "is_digit d"
    using show_nat_digits [of ?n] ds by simp
  have nz: "d \<noteq> CHR ''0''"
    using show_nat_hd [OF pos] ds by simp
  have pd: "parse_digits 0 (d # ds @ rest) = (?n, rest)"
    using parse_digits_show_nat [OF number_end_facts(1) [OF assms(1)], of ?n] ds by simp
  show ?thesis
    using True le pos number_end_facts(2) [OF assms(1)] dig nz pd
    by (simp add: show_int_def parse_number_def ds)
qed


lemma hex_val_hex_char: "k < 16 \<Longrightarrow> hex_val (hex_char k) = Some k"
  by (simp add: hex_val_def hex_char_def Let_def)

lemma hex_val_zero: "hex_val CHR ''0'' = Some 0"
  by (simp add: hex_val_def)

lemma parse_chars_control:
  assumes "(of_char c :: nat) < 32"
  shows "parse_chars (backslash # CHR ''u'' # CHR ''0'' # CHR ''0''
            # hex_char ((of_char c :: nat) div 16) # hex_char ((of_char c :: nat) mod 16) # rest)
         = add_char c (parse_chars rest)"
proof -
  let ?n = "of_char c :: nat"
  have hi: "hex_val (hex_char (?n div 16)) = Some (?n div 16)"
    using assms by (intro hex_val_hex_char) simp
  have lo: "hex_val (hex_char (?n mod 16)) = Some (?n mod 16)"
    by (intro hex_val_hex_char) simp
  have small: "?n < 256" using assms by simp
  have same: "char_of ?n = c" by simp
  show ?thesis
    by (simp add: hex_val_zero hi lo small same dquote_def backslash_def)
qed

lemma parse_chars_short_escape:
  assumes "unescape e = Some c" and "e \<noteq> CHR ''u''"
  shows "parse_chars (backslash # e # rest) = add_char c (parse_chars rest)"
  using assms by (simp add: dquote_def backslash_def)

lemma parse_chars_plain:
  assumes "c \<noteq> dquote" and "c \<noteq> backslash" and "\<not> (of_char c :: nat) < 32"
  shows "parse_chars (c # rest) = add_char c (parse_chars rest)"
  using assms by simp

lemma parse_chars_escape: "parse_chars (escape_char c @ rest) = add_char c (parse_chars rest)"
proof -
  consider (q) "c = dquote" | (b) "c = backslash"
    | (s) "c \<in> {CHR 0x08, CHR 0x0C, CHR 0x0A, CHR 0x0D, CHR 0x09}"
    | (u) "c \<noteq> dquote" "c \<noteq> backslash"
          "c \<notin> {CHR 0x08, CHR 0x0C, CHR 0x0A, CHR 0x0D, CHR 0x09}" "(of_char c :: nat) < 32"
    | (p) "c \<noteq> dquote" "c \<noteq> backslash" "\<not> (of_char c :: nat) < 32"
    by blast
  then show ?thesis
  proof cases
    case q
    have "unescape dquote = Some dquote" "dquote \<noteq> CHR ''u''"
      by (simp_all add: unescape_def dquote_def)
    from parse_chars_short_escape [OF this] show ?thesis
      by (simp add: q escape_char_def)
  next
    case b
    have "unescape backslash = Some backslash" "backslash \<noteq> CHR ''u''"
      by (simp_all add: unescape_def dquote_def backslash_def)
    from parse_chars_short_escape [OF this] show ?thesis
      by (simp add: b escape_char_def dquote_def backslash_def)
  next
    case s
    have 1: "unescape CHR ''b'' = Some (CHR 0x08)" "unescape CHR ''f'' = Some (CHR 0x0C)"
      "unescape CHR ''n'' = Some (CHR 0x0A)" "unescape CHR ''r'' = Some (CHR 0x0D)"
      "unescape CHR ''t'' = Some (CHR 0x09)"
      by (simp_all add: unescape_def dquote_def backslash_def)
    from s consider "c = CHR 0x08" | "c = CHR 0x0C" | "c = CHR 0x0A" | "c = CHR 0x0D" | "c = CHR 0x09"
      by blast
    then show ?thesis
    proof cases
      case 1
      then show ?thesis
        using parse_chars_short_escape [of "CHR ''b''" "CHR 0x08" rest]
        by (simp add: escape_char_def unescape_def dquote_def backslash_def)
    next
      case 2
      then show ?thesis
        using parse_chars_short_escape [of "CHR ''f''" "CHR 0x0C" rest]
        by (simp add: escape_char_def unescape_def dquote_def backslash_def)
    next
      case 3
      then show ?thesis
        using parse_chars_short_escape [of "CHR ''n''" "CHR 0x0A" rest]
        by (simp add: escape_char_def unescape_def dquote_def backslash_def)
    next
      case 4
      then show ?thesis
        using parse_chars_short_escape [of "CHR ''r''" "CHR 0x0D" rest]
        by (simp add: escape_char_def unescape_def dquote_def backslash_def)
    next
      case 5
      then show ?thesis
        using parse_chars_short_escape [of "CHR ''t''" "CHR 0x09" rest]
        by (simp add: escape_char_def unescape_def dquote_def backslash_def)
    qed
  next
    case u
    then have esc: "escape_char c = [backslash, CHR ''u'', CHR ''0'', CHR ''0'',
              hex_char ((of_char c :: nat) div 16), hex_char ((of_char c :: nat) mod 16)]"
      by (simp add: escape_char_def)
    show ?thesis
      unfolding esc using parse_chars_control [OF u(4), of rest] by simp
  next
    case p
    then have esc: "escape_char c = [c]"
      by (auto simp: escape_char_def)
    show ?thesis
      unfolding esc using parse_chars_plain [OF p, of rest] by simp
  qed
qed

lemma parse_chars_quoted:
  "parse_chars (concat (map escape_char s) @ dquote # rest) = Inr (s, rest)"
proof (induction s)
  case Nil
  show ?case by simp
next
  case (Cons c s)
  then show ?case
    by (simp add: parse_chars_escape add_char_def del: parse_chars.simps(2))
qed


lemma value_start_facts:
  assumes "value_start c"
  shows "\<not> is_ws c" and "c \<noteq> CHR '']''" and "c \<noteq> CHR ''}''"
  using assms by (auto simp: value_start_def is_ws_def is_digit_def dquote_def)

lemma skip_ws_start: "\<not> is_ws c \<Longrightarrow> skip_ws (c # cs) = c # cs"
  by (simp add: skip_ws_def)

lemma show_int_start: "\<exists>c cs. show_int i = c # cs \<and> (c = CHR ''-'' \<or> is_digit c)"
proof (cases "i < 0")
  case True
  then show ?thesis by (simp add: show_int_def)
next
  case False
  obtain d ds where ds: "show_nat (nat i) = d # ds"
    using show_nat_not_Nil [of "nat i"] by (cases "show_nat (nat i)") auto
  then have "is_digit d"
    using show_nat_digits [of "nat i"] by simp
  with False ds show ?thesis by (simp add: show_int_def)
qed

lemma stringify_start: "\<exists>c cs. JSON_stringify j = c # cs \<and> value_start c"
proof (cases j)
  case (JNumber i)
  with show_int_start [of i] show ?thesis
    by (auto simp: value_start_def)
qed (auto simp: value_start_def quote_def)

lemma elements_start:
  "xs \<noteq> [] \<Longrightarrow> \<exists>c cs. stringify_elements xs = c # cs \<and> value_start c"
proof (cases xs)
  case Nil
  then show "xs \<noteq> [] \<Longrightarrow> ?thesis" by simp
next
  case (Cons x ys)
  obtain c cs where c: "JSON_stringify x = c # cs" "value_start c"
    using stringify_start [of x] by blast
  show ?thesis
  proof (cases ys)
    case Nil
    with Cons c show ?thesis by simp
  next
    case (Cons y zs)
    with \<open>xs = x # ys\<close> c show ?thesis by simp
  qed
qed

lemma members_start:
  "ms \<noteq> [] \<Longrightarrow> \<exists>cs. stringify_members ms = dquote # cs"
proof (cases ms)
  case Nil
  then show "ms \<noteq> [] \<Longrightarrow> ?thesis" by simp
next
  case (Cons m ys)
  obtain k v where m: "m = (k, v)" by (cases m)
  show ?thesis
    using Cons m by (cases ys) (simp_all add: quote_def)
qed

lemma parse_value_null: "parse_value (Suc n) (''null'' @ rest) = Inr (JNull, rest)"
  by (simp add: skip_ws_def is_ws_def is_digit_def dquote_def)

lemma parse_value_true: "parse_value (Suc n) (''true'' @ rest) = Inr (JBool True, rest)"
  by (simp add: skip_ws_def is_ws_def is_digit_def dquote_def)

lemma parse_value_false: "parse_value (Suc n) (''false'' @ rest) = Inr (JBool False, rest)"
  by (simp add: skip_ws_def is_ws_def is_digit_def dquote_def)

lemma parse_value_number:
  assumes "number_end rest" and "safe_id i"
  shows "parse_value (Suc n) (show_int i @ rest) = Inr (JNumber i, rest)"
proof -
  obtain c cs where c: "show_int i = c # cs" "c = CHR ''-'' \<or> is_digit c"
    using show_int_start [of i] by blast
  have ws: "skip_ws (c # cs @ rest) = c # cs @ rest"
    using c(2) by (intro skip_ws_start) (auto simp: is_ws_def is_digit_def)
  have other: "c \<noteq> CHR ''{''" "c \<noteq> CHR ''[''" "c \<noteq> dquote"
    using c(2) by (auto simp: is_digit_def dquote_def)
  have "parse_number (c # cs @ rest) = Inr (i, rest)"
    using parse_number_show_int [OF assms] c(1) by simp
  then show ?thesis
    using c other by (simp add: ws)
qed

lemma parse_value_string: "parse_value (Suc n) (quote s @ rest) = Inr (JString s, rest)"
proof -
  have ws: "skip_ws (dquote # concat (map escape_char s) @ dquote # rest)
              = dquote # concat (map escape_char s) @ dquote # rest"
    by (intro skip_ws_start) (simp add: is_ws_def dquote_def)
  have other: "dquote \<noteq> CHR ''{''" "dquote \<noteq> CHR ''[''"
    by (simp_all add: dquote_def)
  show ?thesis
    using other by (simp add: quote_def ws parse_chars_quoted del: parse_chars.simps)
qed

lemma parse_value_array:
  assumes "xs \<noteq> [] \<longrightarrow> parse_elements n (stringify_elements xs @ CHR '']'' # rest) = Inr (xs, rest)"
  shows "parse_value (Suc n) (JSON_stringify (JArray xs) @ rest) = Inr (JArray xs, rest)"
proof (cases "xs = []")
  case True
  then show ?thesis
    by (simp add: skip_ws_def is_ws_def)
next
  case False
  obtain c cs where c: "stringify_elements xs = c # cs" "value_start c"
    using elements_start [OF False] by blast
  have ws: "skip_ws (c # cs @ CHR '']'' # rest) = c # cs @ CHR '']'' # rest"
    using value_start_facts(1) [OF c(2)] by (rule skip_ws_start)
  have "skip_ws (CHR ''['' # c # cs @ CHR '']'' # rest) = CHR ''['' # c # cs @ CHR '']'' # rest"
    by (intro skip_ws_start) (simp add: is_ws_def)
  then show ?thesis
    using assms False c value_start_facts(2) [OF c(2)]
    by (simp add: ws)
qed

lemma parse_value_object:
  assumes "ms \<noteq> [] \<longrightarrow> parse_members n (stringify_members ms @ CHR ''}'' # rest) = Inr (ms, rest)"
    and "plain_keys ms"
  shows "parse_value (Suc n) (JSON_stringify (JObject ms) @ rest) = Inr (JObject ms, rest)"
proof (cases "ms = []")
  case True
  then show ?thesis
    by (simp add: skip_ws_def is_ws_def)
next
  case False
  obtain cs where c: "stringify_members ms = dquote # cs"
    using members_start [OF False] by blast
  have ws: "skip_ws (dquote # cs @ CHR ''}'' # rest) = dquote # cs @ CHR ''}'' # rest"
    by (intro skip_ws_start) (simp add: is_ws_def dquote_def)
  have ne: "dquote \<noteq> CHR ''}''" by (simp add: dquote_def)
  have "skip_ws (CHR ''{'' # dquote # cs @ CHR ''}'' # rest) = CHR ''{'' # dquote # cs @ CHR ''}'' # rest"
    by (intro skip_ws_start) (simp add: is_ws_def)
  then show ?thesis
    using assms False c ne
    by (simp add: ws)
qed


lemma stringify_length: "0 < length (JSON_stringify j)"
  using stringify_start [of j] by auto

lemma number_end_simps:
  "number_end []" "number_end (CHR '','' # cs)" "number_end (CHR '']'' # cs)"
  "number_end (CHR ''}'' # cs)"
  by (simp_all add: number_end_def)

lemma skip_ws_punct:
  "skip_ws (CHR '','' # cs) = CHR '','' # cs" "skip_ws (CHR '']'' # cs) = CHR '']'' # cs"
  "skip_ws (CHR ''}'' # cs) = CHR ''}'' # cs" "skip_ws (CHR '':'' # cs) = CHR '':'' # cs"
  "skip_ws (dquote # cs) = dquote # cs"
  by (simp_all add: skip_ws_def is_ws_def dquote_def)

lemma parse_elements_roundtrip:
  assumes "\<And>x m r. x \<in> set xs \<Longrightarrow> length (JSON_stringify x) \<le> m \<Longrightarrow> number_end r
             \<Longrightarrow> parse_value m (JSON_stringify x @ r) = Inr (x, r)"
    and "xs \<noteq> []" and "length (stringify_elements xs) < n"
  shows "parse_elements n (stringify_elements xs @ CHR '']'' # rest) = Inr (xs, rest)"
  using assms
proof (induction xs arbitrary: n)
  case Nil
  then show ?case by simp
next
  case (Cons x xs)
  obtain n' where n: "n = Suc n'"
    using Cons.prems(3) by (cases n) auto
  have val: "\<And>m r. length (JSON_stringify x) \<le> m \<Longrightarrow> number_end r
             \<Longrightarrow> parse_value m (JSON_stringify x @ r) = Inr (x, r)"
    using Cons.prems(1) by simp
  show ?case
  proof (cases xs)
    case Nil
    have "length (JSON_stringify x) \<le> n'"
      using Cons.prems(3) n Nil by simp
    from val [OF this number_end_simps(3)] show ?thesis
      by (simp add: n Nil skip_ws_punct)
  next
    case (Cons y ys)
    have len: "length (JSON_stringify x) + 1 + length (stringify_elements (y # ys)) < Suc n'"
      using Cons.prems(3) n Cons by simp
    then have lx: "length (JSON_stringify x) \<le> n'" by simp
    have rest_len: "length (stringify_elements xs) < n'"
      using len stringify_length [of x] Cons by simp
    have ih: "parse_elements n' (stringify_elements xs @ CHR '']'' # rest) = Inr (xs, rest)"
      using Cons.IH [OF _ _ rest_len] Cons.prems(1) Cons by simp
    from val [OF lx number_end_simps(2)] ih show ?thesis
      by (simp add: n Cons skip_ws_punct)
  qed
qed

lemma parse_members_roundtrip:
  assumes "\<forall>p \<in> set ms. \<forall>m r. length (JSON_stringify (snd p)) \<le> m \<longrightarrow> number_end r
             \<longrightarrow> parse_value m (JSON_stringify (snd p) @ r) = Inr (snd p, r)"
    and "ms \<noteq> []" and "length (stringify_members ms) < n"
  shows "parse_members n (stringify_members ms @ CHR ''}'' # rest) = Inr (ms, rest)"
  using assms
proof (induction ms arbitrary: n)
  case Nil
  then show ?case by simp
next
  case (Cons kv ms)
  obtain k v where kv: "kv = (k, v)" by (cases kv)
  obtain n' where n: "n = Suc n'"
    using Cons.prems(3) by (cases n) auto
  have val: "\<And>m r. length (JSON_stringify v) \<le> m \<Longrightarrow> number_end r
             \<Longrightarrow> parse_value m (JSON_stringify v @ r) = Inr (v, r)"
    using Cons.prems(1) kv by simp
  have others: "\<forall>p \<in> set ms. \<forall>m r. length (JSON_stringify (snd p)) \<le> m \<longrightarrow> number_end r
             \<longrightarrow> parse_value m (JSON_stringify (snd p) @ r) = Inr (snd p, r)"
    using Cons.prems(1) by simp
  have key: "\<And>r. parse_chars (concat (map escape_char k) @ dquote # r) = Inr (k, r)"
    by (rule parse_chars_quoted)
  show ?case
  proof (cases ms)
    case Nil
    have "length (JSON_stringify v) \<le> n'"
      using Cons.prems(3) n Nil kv by simp
    from val [OF this number_end_simps(4)] show ?thesis
      by (simp add: n Nil kv quote_def skip_ws_punct key del: parse_chars.simps)
  next
    case (Cons m2 ms2)
    have len: "length (quote k) + 1 + length (JSON_stringify v) + 1
                 + length (stringify_members (m2 # ms2)) < Suc n'"
      using Cons.prems(3) n Cons kv by simp
    then have lv: "length (JSON_stringify v) \<le> n'" by simp
    have rest_len: "length (stringify_members ms) < n'"
      using len Cons by simp
    have ne: "ms \<noteq> []" using Cons by simp
    have ih: "parse_members n' (stringify_members ms @ CHR ''}'' # rest) = Inr (ms, rest)"
      by (rule Cons.IH [OF others ne rest_len])
    from val [OF lv number_end_simps(2)] ih show ?thesis
      by (simp add: n Cons kv quote_def skip_ws_punct key del: parse_chars.simps)
  qed
qed

lemma parse_value_roundtrip:
  "safe_json j \<Longrightarrow> length (JSON_stringify j) \<le> n \<Longrightarrow> number_end rest \<Longrightarrow>
   parse_value n (JSON_stringify j @ rest) = Inr (j, rest)"
proof (induction j arbitrary: n rest)
  case JNull
  then obtain n' where "n = Suc n'" by (cases n) auto
  then show ?case using parse_value_null [of n' rest] by simp
next
  case (JBool b)
  then obtain n' where "n = Suc n'" by (cases n; cases b) auto
  then show ?case
    using parse_value_true [of n' rest] parse_value_false [of n' rest] by (cases b) simp_all
next
  case (JNumber i)
  obtain n' where "n = Suc n'"
    using JNumber.prems(2) stringify_length [of "JNumber i"] by (cases n) auto
  then show ?case
    using parse_value_number [of rest i n'] JNumber.prems by simp
next
  case (JString s)
  obtain n' where "n = Suc n'"
    using JString.prems(2) stringify_length [of "JString s"] by (cases n) auto
  then show ?case
    using parse_value_string [of n' s rest] by simp
next
  case (JArray xs)
  obtain n' where n: "n = Suc n'"
    using JArray.prems(2) by (cases n) auto
  have elems: "\<And>x m r. x \<in> set xs \<Longrightarrow> length (JSON_stringify x) \<le> m \<Longrightarrow> number_end r
             \<Longrightarrow> parse_value m (JSON_stringify x @ r) = Inr (x, r)"
    using JArray.IH JArray.prems(1) by simp
  have "length (stringify_elements xs) < n'"
    using JArray.prems(2) n by simp
  then have "xs \<noteq> [] \<longrightarrow>
      parse_elements n' (stringify_elements xs @ CHR '']'' # rest) = Inr (xs, rest)"
    using parse_elements_roundtrip [OF elems] by blast
  from parse_value_array [OF this] show ?case
    by (simp only: n)
next
  case (JObject ms)
  obtain n' where n: "n = Suc n'"
    using JObject.prems(2) by (cases n) auto
  have vals: "\<forall>p \<in> set ms. \<forall>m r. length (JSON_stringify (snd p)) \<le> m \<longrightarrow> number_end r
             \<longrightarrow> parse_value m (JSON_stringify (snd p) @ r) = Inr (snd p, r)"
  proof (intro ballI allI impI)
    fix p m r
    assume p: "p \<in> set ms" and len: "length (JSON_stringify (snd p)) \<le> m" and r: "number_end r"
    have safe: "safe_json (snd p)" using JObject.prems(1) p by simp
    have "snd p \<in> Basic_BNFs.snds p" by (cases p) simp
    from JObject.IH [OF p this safe len r]
    show "parse_value m (JSON_stringify (snd p) @ r) = Inr (snd p, r)" .
  qed
  have len: "length (stringify_members ms) < n'"
    using JObject.prems(2) n by simp
  have "ms \<noteq> [] \<longrightarrow>
      parse_members n' (stringify_members ms @ CHR ''}'' # rest) = Inr (ms, rest)"
    using parse_members_roundtrip [OF vals _ len] by blast
  moreover have "plain_keys ms"
    using JObject.prems(1) by simp
  ultimately show ?case
    using parse_value_object [of ms n' rest] by (simp only: n)
qed

theorem JSON_roundtrip: "safe_json j \<Longrightarrow> JSON_parse (JSON_stringify j) = Inr j"
  using parse_value_roundtrip [of j "2 * length (JSON_stringify j) + 2" "[]"]
  by (simp add: JSON_parse_def number_end_simps skip_ws_def)


lemma message_of_json_inverse: "message_of_json (message_json m) = Some m"
  by (simp add: message_of_json_def message_json_def as_object_def as_string_def as_bool_def)

lemma those_map_inverse: "(\<And>x. f (g x) = Some x) \<Longrightarrow> those (map (f \<circ> g) xs) = Some xs"
  by (induction xs) simp_all

lemma chat_of_json_inverse: "chat_of_json (chat_json c) = Some c"
  by (simp add: chat_of_json_def chat_json_def as_object_def as_string_def as_number_def
        as_array_def those_map_inverse [of message_of_json message_json, OF message_of_json_inverse])

lemma chats_of_json_inverse: "chats_of_json (chats_json cs) = Some cs"
  by (simp add: chats_of_json_def chats_json_def as_array_def
        those_map_inverse [of chat_of_json chat_json, OF chat_of_json_inverse])

lemma safe_chats_json:
  "list_all (\<lambda>c. safe_id (id' c)) cs \<Longrightarrow> safe_json (chats_json cs)"
  by (simp add: chats_json_def chat_json_def message_json_def list_all_iff
        plain_keys_def index_like_def is_digit_def)

lemma saveAll_not_empty: "saveAll cs \<noteq> []"
  by (simp add: saveAll_def chats_json_def)

lemma loadAll_saveAll:
  "list_all (\<lambda>c. safe_id (id' c)) cs \<Longrightarrow> loadAll (Some (saveAll cs)) = Inr (chats_json cs)"
  using JSON_roundtrip [OF safe_chats_json, of cs]
  by (simp add: loadAll_def saveAll_not_empty) (simp add: saveAll_def)




subsection \<open>The reading functions always give a verdict\<close>





















subsection \<open>Session operations\<close>


lemma read_loop_eq:
  "idx < length (messages s) \<Longrightarrow>
   read_loop decode idx acc chunks s =
     Inr (acc @ concat (map decode chunks),
          map (\<lambda>k. s\<lparr>messages := (messages s)[idx :=
                 \<lparr>text = acc @ concat (map decode (take (Suc k) chunks)), isUser = False\<rparr>]\<rparr>)
            [0..<length chunks])"
proof (induction chunks arbitrary: acc s)
  case Nil
  then show ?case by simp
next
  case (Cons v rest)
  let ?acc = "acc @ decode v"
  let ?s' = "s\<lparr>messages := (messages s)[idx := \<lparr>text = ?acc, isUser = False\<rparr>]\<rparr>"
  have step: "chunk_update idx ?acc s = Inr ?s'"
    using Cons.prems by (simp add: chunk_update_def set_index_def)
  have len: "idx < length (messages ?s')"
    using Cons.prems by simp
  show ?case
    by (simp add: step Cons.IH [OF len] map_upt_Suc del: upt_Suc)
qed

text \<open>
  Claim C6. \<open>sendMessage\<close> is guarded: when no thread is selected or no model is selected
  the call issues no request and returns the state it was given, so the thread
  collection, the live view and the stored text are all unchanged.
\<close>

theorem sendMessage_guard_noop:
  assumes "selectedChat s = None \<or> selectedLLM s = []"
  shows "handleSendMessage decode message updatedMessages resp s
           = Inr \<lparr>requests = [], live = [], final = s\<rparr>"
  using assms by (auto simp: handleSendMessage_def split: option.splits)

theorem sendMessage_guard_noop_witness:
  "(selectedChat (session None []) = None \<or> selectedLLM (session None []) = [])
   \<and> handleSendMessage id ''hi'' None (Response True (Some ([''ok''], EndOfData))) (session None [])
       = Inr \<lparr>requests = [], live = [], final = session None []\<rparr>"
  using sendMessage_guard_noop [of "session None []" id "''hi''" None
          "Response True (Some ([''ok''], EndOfData))"]
  by (simp add: session_def)

text \<open>
  Claim C7. Selecting an identifier that occurs in the collection makes it the selected
  thread and loads the message sequence of the (first) thread carrying it into the live
  view; selecting an identifier that does not occur leaves the whole state, in
  particular the selection and the live view, as it was.
\<close>

theorem selectThread_present_or_noop:
  "(chatId \<in> id' ` set (chats s) \<longrightarrow>
      (\<exists>chat. find (\<lambda>c. id' c = chatId) (chats s) = Some chat
         \<and> chat \<in> set (chats s) \<and> id' chat = chatId
         \<and> handleSelectChat chatId s = s\<lparr>selectedChat := Some chatId, messages := messages' chat\<rparr>))
   \<and> (chatId \<notin> id' ` set (chats s) \<longrightarrow> handleSelectChat chatId s = s)"
proof (intro conjI impI)
  assume "chatId \<in> id' ` set (chats s)"
  then obtain chat where found: "find (\<lambda>c. id' c = chatId) (chats s) = Some chat"
    by (cases "find (\<lambda>c. id' c = chatId) (chats s)") (auto simp: find_None_iff)
  then have "chat \<in> set (chats s)" and "id' chat = chatId"
    by (auto simp: find_Some_iff)
  with found show "\<exists>chat. find (\<lambda>c. id' c = chatId) (chats s) = Some chat
         \<and> chat \<in> set (chats s) \<and> id' chat = chatId
         \<and> handleSelectChat chatId s = s\<lparr>selectedChat := Some chatId, messages := messages' chat\<rparr>"
    by (simp add: handleSelectChat_def)
next
  assume "chatId \<notin> id' ` set (chats s)"
  then have "find (\<lambda>c. id' c = chatId) (chats s) = None"
    by (auto simp: find_None_iff)
  then show "handleSelectChat chatId s = s"
    by (simp add: handleSelectChat_def)
qed

theorem selectThread_witness:
  "id' thread_a \<in> id' ` set (chats (session None []))
   \<and> handleSelectChat (id' thread_a) (session None [])
       = session (Some (id' thread_a)) (messages' thread_a)
   \<and> 42 \<notin> id' ` set (chats (session (Some (id' thread_a)) (messages' thread_a)))
   \<and> handleSelectChat 42 (session (Some (id' thread_a)) (messages' thread_a))
       = session (Some (id' thread_a)) (messages' thread_a)"
  using selectThread_present_or_noop [of "id' thread_a" "session None []"]
    selectThread_present_or_noop [of 42 "session (Some (id' thread_a)) (messages' thread_a)"]
  by (simp add: session_def thread_a_def thread_b_def)

text \<open>
  Claim C8. The model list at startup: when the fetch fails the state stays the initial
  one, with no models, no selected model, and the "no models" pane; a successful reply
  is stored in its order; its first element, when there is one, becomes the selected
  model; an empty reply leaves no model selected and the "no models" pane.
\<close>

theorem fetchModels_startup:
  "(reply \<in> {ModelsFetchRejected, ModelsNotOk, ModelsBadJson} \<longrightarrow>
      fetchModels reply (initialState cs) = initialState cs
      \<and> models (fetchModels reply (initialState cs)) = []
      \<and> selectedLLM (fetchModels reply (initialState cs)) = []
      \<and> main_pane_of (fetchModels reply (initialState cs)) = NoModelsAvailable)
   \<and> models (fetchModels (ModelsOk ms) (initialState cs)) = ms
   \<and> (\<forall>m rest. ms = m # rest \<longrightarrow>
        selectedLLM (fetchModels (ModelsOk ms) (initialState cs)) = m
        \<and> main_pane_of (fetchModels (ModelsOk ms) (initialState cs)) = ModelPickerAndChat)
   \<and> (ms = [] \<longrightarrow>
        selectedLLM (fetchModels (ModelsOk ms) (initialState cs)) = []
        \<and> main_pane_of (fetchModels (ModelsOk ms) (initialState cs)) = NoModelsAvailable)"
  by (cases reply; cases ms) (simp_all add: fetchModels_def initialState_def main_pane_of_def)

theorem fetchModels_startup_witness:
  "ModelsNotOk \<in> {ModelsFetchRejected, ModelsNotOk, ModelsBadJson}
   \<and> selectedLLM (fetchModels ModelsNotOk (initialState [thread_a])) = []
   \<and> main_pane_of (fetchModels ModelsNotOk (initialState [thread_a])) = NoModelsAvailable
   \<and> models (fetchModels (ModelsOk [''a'', ''b'']) (initialState [thread_a])) = [''a'', ''b'']
   \<and> selectedLLM (fetchModels (ModelsOk [''a'', ''b'']) (initialState [thread_a])) = ''a''
   \<and> selectedLLM (fetchModels (ModelsOk []) (initialState [thread_a])) = []
   \<and> main_pane_of (fetchModels (ModelsOk []) (initialState [thread_a])) = NoModelsAvailable"
  using fetchModels_startup [of ModelsNotOk "[thread_a]" "[''a'', ''b'']"]
    fetchModels_startup [of ModelsNotOk "[thread_a]" "[]"]
  by simp

lemma with_messages_ids: "map id' (with_messages sel ms cs) = map id' cs"
  by (induction cs) (simp_all add: with_messages_def)

lemma with_messages_selected:
  "c \<in> set (with_messages sel ms cs) \<Longrightarrow> id' c = sel \<Longrightarrow> messages' c = ms"
proof (induction cs)
  case Nil
  then show ?case by (simp add: with_messages_def)
next
  case (Cons a cs)
  have unfold: "with_messages sel ms (a # cs) =
      (if id' a = sel then a\<lparr>messages' := ms\<rparr> else a) # with_messages sel ms cs"
    by (simp add: with_messages_def)
  show ?case
  proof (cases "c \<in> set (with_messages sel ms cs)")
    case True
    then show ?thesis using Cons by simp
  next
    case False
    with Cons.prems unfold have "c = (if id' a = sel then a\<lparr>messages' := ms\<rparr> else a)"
      by simp
    with Cons.prems show ?thesis by (cases "id' a = sel") simp_all
  qed
qed

lemma with_messages_present:
  "sel \<in> id' ` set cs \<Longrightarrow> \<exists>c \<in> set (with_messages sel ms cs). id' c = sel"
proof -
  assume "sel \<in> id' ` set cs"
  then have "sel \<in> set (map id' (with_messages sel ms cs))"
    by (simp add: with_messages_ids)
  then show ?thesis by auto
qed

lemma with_messages_length: "length (with_messages sel ms cs) = length cs"
  by (simp add: with_messages_def)


lemma before_request_messages:
  "messages (before_request sel message upd s)
     = updatedChatMessages message upd s @ [\<lparr>text = [], isUser = False\<rparr>]"
  by (cases upd) (simp_all add: before_request_def Let_def setChats_def)

lemma before_request_None:
  "before_request sel message None s =
     s\<lparr>chats := with_messages sel (messages s @ [\<lparr>text = message, isUser = True\<rparr>]) (chats s),
       localStorage := Some (saveAll
          (with_messages sel (messages s @ [\<lparr>text = message, isUser = True\<rparr>]) (chats s))),
       messages := messages s @ [\<lparr>text = message, isUser = True\<rparr>, \<lparr>text = [], isUser = False\<rparr>]\<rparr>"
  by (simp add: before_request_def updatedChatMessages_def Let_def setChats_def)

lemma before_request_Some:
  "before_request sel message (Some given) s = s\<lparr>messages := given @ [\<lparr>text = [], isUser = False\<rparr>]\<rparr>"
  by (simp add: before_request_def updatedChatMessages_def Let_def)

lemma read_loop_placeholder:
  assumes "messages s2 = hist @ [\<lparr>text = [], isUser = False\<rparr>]"
  shows "read_loop decode (length hist) [] chunks s2 =
           Inr (concat (map decode chunks),
                map (\<lambda>k. s2\<lparr>messages := hist @
                       [\<lparr>text = concat (map decode (take (Suc k) chunks)), isUser = False\<rparr>]\<rparr>)
                  [0..<length chunks])"
proof -
  have "length hist < length (messages s2)"
    using assms by simp
  from read_loop_eq [OF this, of decode "[]" chunks] show ?thesis
    using assms by simp
qed

lemma live_states_shift:
  assumes "messages s2 = hist @ [\<lparr>text = [], isUser = False\<rparr>]"
  shows "s2 # map (\<lambda>k. s2\<lparr>messages := hist @
                   [\<lparr>text = concat (map decode (take (Suc k) chunks)), isUser = False\<rparr>]\<rparr>)
              [0..<n]
         = map (\<lambda>k. s2\<lparr>messages := hist @
                   [\<lparr>text = concat (map decode (take k chunks)), isUser = False\<rparr>]\<rparr>)
              [0..<Suc n]"
proof -
  have "s2\<lparr>messages := hist @ [\<lparr>text = concat (map decode (take 0 chunks)), isUser = False\<rparr>]\<rparr> = s2"
    using assms by simp
  then show ?thesis
    by (simp add: map_upt_Suc del: upt_Suc)
qed

lemma send_result:
  fixes s :: AppState and message :: string and upd :: "Message list option"
    and decode :: "'c \<Rightarrow> string" and resp :: "'c response"
  assumes sel: "selectedChat s = Some sel" and llm: "selectedLLM s \<noteq> []"
  defines "hist \<equiv> updatedChatMessages message upd s"
  defines "s2 \<equiv> before_request sel message upd s"
  defines "states \<equiv> map (\<lambda>k. s2\<lparr>messages := hist @
                   [\<lparr>text = concat (map decode (take k (delivered resp))), isUser = False\<rparr>]\<rparr>)
              [0..<Suc (length (delivered resp))]"
  shows "handleSendMessage decode message upd resp s =
     Inr \<lparr>requests = [\<lparr>content = message, model = selectedLLM s, history = hist, chat_id = sel\<rparr>],
          live = states,
          final = (if completed resp
                   then setChats (with_messages sel
                          (hist @ [\<lparr>text = concat (map decode (delivered resp)), isUser = False\<rparr>]))
                          (last states)
                   else last states)\<rparr>"
proof -
  have ms2: "messages s2 = hist @ [\<lparr>text = [], isUser = False\<rparr>]"
    by (simp add: s2_def hist_def before_request_messages)
  have s2_fix: "s2\<lparr>messages := hist @ [\<lparr>text = [], isUser = False\<rparr>]\<rparr> = s2"
    using ms2 by simp
  show ?thesis
  proof (cases resp)
    case FetchRejected
    then show ?thesis
      using sel llm s2_fix
      by (simp add: handleSendMessage_def Let_def delivered_def completed_def states_def
            hist_def [symmetric] s2_def [symmetric])
  next
    case (Response ok body)
    show ?thesis
    proof (cases body)
      case None
      then show ?thesis
        using sel llm s2_fix Response
        by (simp add: handleSendMessage_def Let_def delivered_def completed_def states_def
              hist_def [symmetric] s2_def [symmetric])
    next
      case (Some b)
      obtain chunks ending where b: "b = (chunks, ending)" by (cases b)
      show ?thesis
      proof (cases ok)
        case False
        then show ?thesis
          using sel llm s2_fix Response Some b
          by (simp add: handleSendMessage_def Let_def delivered_def completed_def states_def
                hist_def [symmetric] s2_def [symmetric])
      next
        case True
        have d: "delivered resp = chunks"
          using Response Some b True by (simp add: delivered_def)
        have st: "s2 # map (\<lambda>k. s2\<lparr>messages := hist @
                   [\<lparr>text = concat (map decode (take (Suc k) chunks)), isUser = False\<rparr>]\<rparr>)
              [0..<length chunks] = states"
          unfolding states_def d by (rule live_states_shift [OF ms2])
        show ?thesis
        proof (cases ending)
          case EndOfData
          then show ?thesis
            using sel llm Response Some b True
            by (simp add: handleSendMessage_def Let_def completed_def delivered_def
                  hist_def [symmetric] s2_def [symmetric] read_loop_placeholder [OF ms2] st
                  del: upt_Suc last.simps)
        next
          case ReadRejected
          then show ?thesis
            using sel llm Response Some b True
            by (simp add: handleSendMessage_def Let_def completed_def delivered_def
                  hist_def [symmetric] s2_def [symmetric] read_loop_placeholder [OF ms2] st
                  del: upt_Suc last.simps)
        qed
      qed
    qed
  qed
qed


lemma enumerate_replace:
  "map (\<lambda>(j, msg). if j = i then f msg else msg) (enumerate 0 xs)
     = (if i < length xs then xs[i := f (xs ! i)] else xs)"
  by (rule nth_equalityI) (auto simp: nth_enumerate_eq nth_list_update)

lemma take_update_last:
  "i < length xs \<Longrightarrow> take (Suc i) (xs[i := v]) = take i xs @ [v]"
  by (simp add: take_Suc_conv_app_nth)


lemma hd_map_upt: "hd (map f [0..<Suc n]) = f 0"
  by (simp add: upt_conv_Cons del: upt_Suc)

lemma send_first_state:
  fixes s :: AppState and message :: string and upd :: "Message list option"
    and decode :: "'c \<Rightarrow> string" and resp :: "'c response"
  assumes sel: "selectedChat s = Some sel" and llm: "selectedLLM s \<noteq> []"
  shows "\<exists>r. handleSendMessage decode message upd resp s = Inr r
           \<and> requests r = [\<lparr>content = message, model = selectedLLM s,
                             history = updatedChatMessages message upd s, chat_id = sel\<rparr>]
           \<and> live r \<noteq> []
           \<and> hd (live r) = before_request sel message upd s"
proof -
  have same: "(before_request sel message upd s)
               \<lparr>messages := updatedChatMessages message upd s @ [\<lparr>text = [], isUser = False\<rparr>]\<rparr>
             = before_request sel message upd s"
    using before_request_messages [of sel message upd s] by simp
  show ?thesis
    unfolding send_result [OF sel llm, of decode message upd resp]
    by (simp add: hd_map_upt same del: upt_Suc)
qed




lemma last_map_upt: "last (map f [0..<Suc n]) = f n"
  by simp

lemma before_request_ids:
  "map id' (chats (before_request sel message upd s)) = map id' (chats s)"
  by (cases upd)
     (simp_all add: before_request_None before_request_Some with_messages_ids)

lemma before_request_stored:
  "localStorage s = Some (saveAll (chats s)) \<Longrightarrow>
   localStorage (before_request sel message upd s)
     = Some (saveAll (chats (before_request sel message upd s)))"
  by (cases upd) (simp_all add: before_request_None before_request_Some)

text \<open>
  Claim C1, as amended. Each chunk is decoded and appended to the running text, and the
  message at the placeholder index is replaced with the whole text so far: the live
  views are the history followed by the concatenation of the first \<open>k\<close> decoded chunks,
  for \<open>k = 0, ..., n\<close>. After the stream ends the selected thread's stored sequence is
  the history followed by exactly one assistant message carrying the concatenation of
  all chunks. For the chunks "Hel", "lo w", "orld" the texts are "", "Hel", "Hello w",
  "Hello world".
\<close>

theorem stream_accumulates:
  fixes s :: AppState and decode :: "'c \<Rightarrow> string" and chunks :: "'c list"
    and message :: string and upd :: "Message list option"
  defines "hist \<equiv> updatedChatMessages message upd s"
  defines "reply \<equiv> \<lparr>text = concat (map decode chunks), isUser = False\<rparr>"
  assumes sel: "selectedChat s = Some sel" and llm: "selectedLLM s \<noteq> []"
    and present: "sel \<in> id' ` set (chats s)"
  shows "\<exists>r. handleSendMessage decode message upd (Response True (Some (chunks, EndOfData))) s = Inr r
      \<and> map messages (live r)
          = map (\<lambda>k. hist @ [\<lparr>text = concat (map decode (take k chunks)), isUser = False\<rparr>])
              [0..<Suc (length chunks)]
      \<and> live_texts (length hist) r
          = map (\<lambda>k. Some (concat (map decode (take k chunks)))) [0..<Suc (length chunks)]
      \<and> messages (final r) = hist @ [reply]
      \<and> (\<exists>c \<in> set (chats (final r)). id' c = sel)
      \<and> (\<forall>c \<in> set (chats (final r)). id' c = sel \<longrightarrow> messages' c = hist @ [reply])
      \<and> localStorage (final r) = Some (saveAll (chats (final r)))"
proof -
  let ?resp = "Response True (Some (chunks, EndOfData)) :: 'c response"
  let ?s2 = "before_request sel message upd s"
  let ?states = "map (\<lambda>k. ?s2\<lparr>messages := hist @
                   [\<lparr>text = concat (map decode (take k chunks)), isUser = False\<rparr>]\<rparr>)
              [0..<Suc (length chunks)]"
  let ?fin = "setChats (with_messages sel (hist @ [reply])) (last ?states)"
  let ?r = "\<lparr>requests = [\<lparr>content = message, model = selectedLLM s, history = hist, chat_id = sel\<rparr>],
            live = ?states, final = ?fin\<rparr>"
  have d: "delivered ?resp = chunks" and c: "completed ?resp"
    by (simp_all add: delivered_def completed_def)
  have run: "handleSendMessage decode message upd ?resp s = Inr ?r"
    unfolding send_result [OF sel llm, of decode message upd ?resp]
    by (simp add: d c hist_def reply_def del: upt_Suc)
  have last_state: "last ?states = ?s2\<lparr>messages := hist @ [reply]\<rparr>"
    unfolding last_map_upt by (simp add: reply_def)
  have fin_chats: "chats ?fin = with_messages sel (hist @ [reply]) (chats ?s2)"
    unfolding last_state by (simp add: setChats_def Let_def)
  have 1: "map messages (live ?r)
          = map (\<lambda>k. hist @ [\<lparr>text = concat (map decode (take k chunks)), isUser = False\<rparr>])
              [0..<Suc (length chunks)]"
    by (simp add: comp_def del: upt_Suc)
  have 2: "live_texts (length hist) ?r
          = map (\<lambda>k. Some (concat (map decode (take k chunks)))) [0..<Suc (length chunks)]"
    by (simp add: live_texts_def text_at_def comp_def del: upt_Suc)
  have 3: "messages (final ?r) = hist @ [reply]"
    using last_state by (simp add: setChats_def Let_def del: upt_Suc)
  have "sel \<in> id' ` set (chats ?s2)"
    using present before_request_ids [of sel message upd s]
    by (metis list.set_map)
  then have 4: "\<exists>c \<in> set (chats (final ?r)). id' c = sel"
    using fin_chats with_messages_present by (simp del: upt_Suc)
  have 5: "\<forall>c \<in> set (chats (final ?r)). id' c = sel \<longrightarrow> messages' c = hist @ [reply]"
    using fin_chats with_messages_selected by (simp del: upt_Suc)
  have 6: "localStorage (final ?r) = Some (saveAll (chats (final ?r)))"
    by (simp add: setChats_def Let_def del: upt_Suc)
  from run 1 2 3 4 5 6 show ?thesis by blast
qed


theorem stream_accumulates_witness:
  "selectedChat (session (Some (id' thread_b)) []) = Some (id' thread_b)
   \<and> selectedLLM (session (Some (id' thread_b)) []) \<noteq> []
   \<and> id' thread_b \<in> id' ` set (chats (session (Some (id' thread_b)) []))
   \<and> (\<exists>r. handleSendMessage id ''hi'' None
              (Response True (Some ([''Hel'', ''lo w'', ''orld''], EndOfData)))
              (session (Some (id' thread_b)) []) = Inr r
          \<and> live_texts 1 r = [Some [], Some ''Hel'', Some ''Hello w'', Some ''Hello world'']
          \<and> messages (final r)
              = [\<lparr>text = ''hi'', isUser = True\<rparr>, \<lparr>text = ''Hello world'', isUser = False\<rparr>]
          \<and> (\<forall>c \<in> set (chats (final r)). id' c = id' thread_b \<longrightarrow> messages' c
              = [\<lparr>text = ''hi'', isUser = True\<rparr>, \<lparr>text = ''Hello world'', isUser = False\<rparr>]))"
proof -
  have sel: "selectedChat (session (Some (id' thread_b)) []) = Some (id' thread_b)"
    and llm: "selectedLLM (session (Some (id' thread_b)) []) \<noteq> []"
    and present: "id' thread_b \<in> id' ` set (chats (session (Some (id' thread_b)) []))"
    by (simp_all add: session_def)
  have hist: "updatedChatMessages ''hi'' None (session (Some (id' thread_b)) [])
                = [\<lparr>text = ''hi'', isUser = True\<rparr>]"
    by (simp add: updatedChatMessages_def session_def)
  note inst = stream_accumulates [OF sel llm present, of id "''hi''" None
      "[''Hel'', ''lo w'', ''orld'']", unfolded hist]
  from inst obtain r where
    r: "handleSendMessage id ''hi'' None
              (Response True (Some ([''Hel'', ''lo w'', ''orld''], EndOfData)))
              (session (Some (id' thread_b)) []) = Inr r"
    and texts: "live_texts (length [\<lparr>text = ''hi'', isUser = True\<rparr>]) r
          = map (\<lambda>k. Some (concat (map id (take k [''Hel'', ''lo w'', ''orld'']))))
              [0..<Suc (length [''Hel'', ''lo w'', ''orld''])]"
    and fin: "messages (final r) = [\<lparr>text = ''hi'', isUser = True\<rparr>]
                @ [\<lparr>text = concat (map id [''Hel'', ''lo w'', ''orld'']), isUser = False\<rparr>]"
    and stored: "\<forall>c \<in> set (chats (final r)). id' c = id' thread_b \<longrightarrow> messages' c
              = [\<lparr>text = ''hi'', isUser = True\<rparr>]
                @ [\<lparr>text = concat (map id [''Hel'', ''lo w'', ''orld'']), isUser = False\<rparr>]"
    by blast
  have 1: "live_texts 1 r = [Some [], Some ''Hel'', Some ''Hello w'', Some ''Hello world'']"
    using texts by (simp add: upt_rec)
  have 2: "messages (final r)
              = [\<lparr>text = ''hi'', isUser = True\<rparr>, \<lparr>text = ''Hello world'', isUser = False\<rparr>]"
    using fin by simp
  have 3: "\<forall>c \<in> set (chats (final r)). id' c = id' thread_b \<longrightarrow> messages' c
              = [\<lparr>text = ''hi'', isUser = True\<rparr>, \<lparr>text = ''Hello world'', isUser = False\<rparr>]"
    using stored by simp
  from sel llm present r 1 2 3 show ?thesis by blast
qed

text \<open>
  Claim C1 as stated gives "Helloworld" as the last text for the chunks "Hel", "lo w",
  "orld". The second chunk ends in " w", so the live texts end in "Hello world".
\<close>

theorem stream_example_counterexample:
  "\<not> isl (handleSendMessage id ''hi'' None
              (Response True (Some ([''Hel'', ''lo w'', ''orld''], EndOfData)))
              (session (Some (id' thread_b)) []))
   \<and> live_texts 1 (projr (handleSendMessage id ''hi'' None
              (Response True (Some ([''Hel'', ''lo w'', ''orld''], EndOfData)))
              (session (Some (id' thread_b)) [])))
       = [Some [], Some ''Hel'', Some ''Hello w'', Some ''Hello world'']
   \<and> live_texts 1 (projr (handleSendMessage id ''hi'' None
              (Response True (Some ([''Hel'', ''lo w'', ''orld''], EndOfData)))
              (session (Some (id' thread_b)) [])))
       \<noteq> [Some [], Some ''Hel'', Some ''Hello w'', Some ''Helloworld'']"
proof -
  have sel: "selectedChat (session (Some (id' thread_b)) []) = Some (id' thread_b)"
    and llm: "selectedLLM (session (Some (id' thread_b)) []) \<noteq> []"
    by (simp_all add: session_def)
  have hist: "updatedChatMessages ''hi'' None (session (Some (id' thread_b)) [])
                = [\<lparr>text = ''hi'', isUser = True\<rparr>]"
    by (simp add: updatedChatMessages_def session_def)
  have d: "delivered (Response True (Some ([''Hel'', ''lo w'', ''orld''], EndOfData)))
             = [''Hel'', ''lo w'', ''orld'']"
    by (simp add: delivered_def)
  show ?thesis
    unfolding send_result [OF sel llm, of id "''hi''" None
        "Response True (Some ([''Hel'', ''lo w'', ''orld''], EndOfData))"] hist d
    by (simp add: live_texts_def text_at_def upt_rec)
qed


text \<open>
  Claim C4, as amended. Requesting a deletion leaves the collection unchanged and only
  opens the prompt with the pending identifier; declining closes the prompt and clears
  the pending identifier, which gives back the state before the request; confirming
  removes exactly the threads with the requested identifier, writes the collection, and
  clears the selection and the live view whether or not the deleted thread was the
  selected one.
\<close>

theorem delete_two_phase:
  "handleDeleteChat d s = s\<lparr>isModalOpen := True, chatToDelete := Some d\<rparr>
   \<and> chats (handleDeleteChat d s) = chats s
   \<and> (\<not> isModalOpen s \<and> chatToDelete s = None \<longrightarrow> closeModal (handleDeleteChat d s) = s)
   \<and> closeModal (handleDeleteChat d s) = s\<lparr>isModalOpen := False, chatToDelete := None\<rparr>
   \<and> confirmDeleteChat (handleDeleteChat d s)
       = s\<lparr>chats := filter (\<lambda>chat. id' chat \<noteq> d) (chats s),
            localStorage := Some (saveAll (filter (\<lambda>chat. id' chat \<noteq> d) (chats s))),
            selectedChat := None, messages := [], chatToDelete := None, isModalOpen := False,
            toastMessage := ''Chat deleted successfully!'', isToastVisible := True\<rparr>"
  by (simp add: handleDeleteChat_def closeModal_def confirmDeleteChat_def setChats_def Let_def)

theorem delete_two_phase_witness:
  "\<not> isModalOpen (session (Some (id' thread_a)) (messages' thread_a))
   \<and> chatToDelete (session (Some (id' thread_a)) (messages' thread_a)) = None
   \<and> chats (handleDeleteChat (id' thread_b) (session (Some (id' thread_a)) (messages' thread_a)))
       = [thread_a, thread_b]
   \<and> closeModal (handleDeleteChat (id' thread_b) (session (Some (id' thread_a)) (messages' thread_a)))
       = session (Some (id' thread_a)) (messages' thread_a)
   \<and> chats (confirmDeleteChat (handleDeleteChat (id' thread_b)
               (session (Some (id' thread_a)) (messages' thread_a)))) = [thread_a]
   \<and> selectedChat (confirmDeleteChat (handleDeleteChat (id' thread_b)
               (session (Some (id' thread_a)) (messages' thread_a)))) = None
   \<and> messages (confirmDeleteChat (handleDeleteChat (id' thread_b)
               (session (Some (id' thread_a)) (messages' thread_a)))) = []"
proof -
  have closed: "\<not> isModalOpen (session (Some (id' thread_a)) (messages' thread_a))
      \<and> chatToDelete (session (Some (id' thread_a)) (messages' thread_a)) = None"
    by (simp add: session_def)
  have ids: "id' thread_a \<noteq> id' thread_b"
    by (simp add: thread_a_def thread_b_def)
  note inst = delete_two_phase [of "id' thread_b" "session (Some (id' thread_a)) (messages' thread_a)"]
  have 1: "chats (handleDeleteChat (id' thread_b) (session (Some (id' thread_a)) (messages' thread_a)))
       = [thread_a, thread_b]"
    using inst by (simp add: session_def)
  have 2: "closeModal (handleDeleteChat (id' thread_b) (session (Some (id' thread_a)) (messages' thread_a)))
       = session (Some (id' thread_a)) (messages' thread_a)"
    using inst closed by blast
  have 3: "confirmDeleteChat (handleDeleteChat (id' thread_b)
               (session (Some (id' thread_a)) (messages' thread_a)))
       = (session (Some (id' thread_a)) (messages' thread_a))
           \<lparr>chats := filter (\<lambda>chat. id' chat \<noteq> id' thread_b)
                       (chats (session (Some (id' thread_a)) (messages' thread_a))),
            localStorage := Some (saveAll (filter (\<lambda>chat. id' chat \<noteq> id' thread_b)
                       (chats (session (Some (id' thread_a)) (messages' thread_a))))),
            selectedChat := None, messages := [], chatToDelete := None, isModalOpen := False,
            toastMessage := ''Chat deleted successfully!'', isToastVisible := True\<rparr>"
    using inst by blast
  show ?thesis
    using closed 1 2 ids unfolding 3 by (simp add: session_def)
qed

text \<open>
  Claim C4 as stated keeps the selection when another thread is deleted. Deleting the
  second thread while the first is selected clears the selection and the live view.
\<close>

theorem delete_other_thread_counterexample:
  "id' thread_b \<noteq> id' thread_a
   \<and> selectedChat (session (Some (id' thread_a)) (messages' thread_a)) = Some (id' thread_a)
   \<and> selectedChat (confirmDeleteChat (handleDeleteChat (id' thread_b)
                     (session (Some (id' thread_a)) (messages' thread_a)))) = None
   \<and> messages (session (Some (id' thread_a)) (messages' thread_a)) = messages' thread_a
   \<and> messages (confirmDeleteChat (handleDeleteChat (id' thread_b)
                     (session (Some (id' thread_a)) (messages' thread_a)))) = []
   \<and> messages' thread_a \<noteq> []"
  by (simp add: session_def handleDeleteChat_def confirmDeleteChat_def setChats_def Let_def
        thread_a_def thread_b_def)

subsection \<open>Persistence across a session\<close>

lemma in_sync_setChats:
  "safe_ids (f (chats s)) \<Longrightarrow> in_sync (setChats f s)"
  by (simp add: in_sync_def setChats_def Let_def)

lemma safe_ids_with_messages: "safe_ids (with_messages sel ms cs) = safe_ids cs"
  by (simp add: safe_ids_def with_messages_ids)

lemma in_sync_messages: "in_sync (s\<lparr>messages := ms\<rparr>) = in_sync s"
  by (simp add: in_sync_def)

lemma in_sync_initial: "safe_ids cs \<Longrightarrow> in_sync (initialState cs)"
  by (simp add: in_sync_def initialState_def)

lemma in_sync_select: "in_sync s \<Longrightarrow> in_sync (handleSelectChat chatId s)"
  by (cases "find (\<lambda>c. id' c = chatId) (chats s)")
     (simp_all add: handleSelectChat_def in_sync_def)

lemma in_sync_add: "in_sync s \<Longrightarrow> safe_id now \<Longrightarrow> in_sync (handleAddChat now today s)"
  by (simp add: handleAddChat_def in_sync_def setChats_def Let_def safe_ids_def)

lemma rename_ids:
  "map id' (map (\<lambda>chat. if id' chat = chatId then chat\<lparr>name := newName\<rparr> else chat) cs)
     = map id' cs"
  by (induction cs) simp_all

lemma in_sync_rename: "in_sync s \<Longrightarrow> in_sync (handleRenameChat chatId newName s)"
proof -
  assume "in_sync s"
  then have "safe_ids (map (\<lambda>chat. if id' chat = chatId then chat\<lparr>name := newName\<rparr> else chat)
                         (chats s))"
    unfolding safe_ids_def rename_ids by (simp add: in_sync_def safe_ids_def)
  then have "in_sync (setChats
      (map (\<lambda>chat. if id' chat = chatId then chat\<lparr>name := newName\<rparr> else chat)) s)"
    by (rule in_sync_setChats)
  then show ?thesis
    by (simp add: handleRenameChat_def in_sync_def)
qed

lemma in_sync_request_delete: "in_sync s \<Longrightarrow> in_sync (handleDeleteChat chatId s)"
  by (simp add: handleDeleteChat_def in_sync_def)

lemma in_sync_close: "in_sync s \<Longrightarrow> in_sync (closeModal s)"
  by (simp add: closeModal_def in_sync_def)

lemma in_sync_confirm: "in_sync s \<Longrightarrow> in_sync (confirmDeleteChat s)"
  by (cases "chatToDelete s")
     (simp_all add: confirmDeleteChat_def in_sync_def setChats_def Let_def safe_ids_def
        list_all_iff)

lemma in_sync_llm: "in_sync s \<Longrightarrow> in_sync (handleLLMChange llm s)"
  by (simp add: handleLLMChange_def in_sync_def)

lemma in_sync_models: "in_sync s \<Longrightarrow> in_sync (fetchModels reply s)"
  by (cases reply; cases "case reply of ModelsOk ms \<Rightarrow> ms | _ \<Rightarrow> []")
     (simp_all add: fetchModels_def in_sync_def)

lemma in_sync_before_request:
  "in_sync s \<Longrightarrow> in_sync (before_request sel message upd s)"
  by (cases upd)
     (simp_all add: before_request_None before_request_Some in_sync_def safe_ids_with_messages)

lemma send_returns:
  fixes decode :: "'c \<Rightarrow> string"
  assumes "in_sync s"
  shows "\<exists>r. handleSendMessage decode message upd resp s = Inr r \<and> in_sync (final r)"
proof (cases "selectedChat s = None \<or> selectedLLM s = []")
  case True
  then have "handleSendMessage decode message upd resp s
               = Inr \<lparr>requests = [], live = [], final = s\<rparr>"
    by (auto simp: handleSendMessage_def split: option.splits)
  with assms show ?thesis by simp
next
  case False
  then obtain sel where sel: "selectedChat s = Some sel" and llm: "selectedLLM s \<noteq> []"
    by auto
  let ?s2 = "before_request sel message upd s"
  have s2: "in_sync ?s2"
    using assms by (rule in_sync_before_request)
  have last_sync: "in_sync (?s2\<lparr>messages := ms\<rparr>)" for ms
    using s2 by (simp add: in_sync_messages)
  have "safe_ids (with_messages sel ms (chats (?s2\<lparr>messages := ms'\<rparr>)))" for ms ms'
    using s2 by (simp add: safe_ids_with_messages in_sync_def)
  then have fin_sync: "in_sync (setChats (with_messages sel ms) (?s2\<lparr>messages := ms'\<rparr>))" for ms ms'
    by (rule in_sync_setChats)
  show ?thesis
    unfolding send_result [OF sel llm, of decode message upd resp] last_map_upt
    using last_sync fin_sync by simp
qed

lemma edit_returns:
  fixes decode :: "'c \<Rightarrow> string"
  assumes "in_sync s"
  shows "(\<exists>r. updateMessage decode index newText resp s = Inr r \<and> in_sync (final r))
       \<or> (\<exists>s'. updateMessage decode index newText resp s = Inl (TypeError s') \<and> in_sync s')"
proof (cases "selectedChat s")
  case None
  with assms show ?thesis by (simp add: updateMessage_def)
next
  case (Some sel)
  let ?trunc = "take (index + 1)
                 (map (\<lambda>(i, msg). if i = index then msg\<lparr>text := newText\<rparr> else msg)
                    (enumerate 0 (messages s)))"
  let ?s1 = "setChats (with_messages sel ?trunc) (s\<lparr>messages := ?trunc\<rparr>)"
  have s1: "in_sync ?s1"
    using assms by (intro in_sync_setChats) (simp add: safe_ids_with_messages in_sync_def)
  show ?thesis
  proof (cases "index < length ?trunc")
    case True
    then have "updateMessage decode index newText resp s
                 = handleSendMessage decode (text (?trunc ! index)) (Some ?trunc) resp ?s1"
      using Some by (simp add: updateMessage_def Let_def)
    with send_returns [OF s1, of decode] show ?thesis by simp
  next
    case False
    then have "updateMessage decode index newText resp s = Inl (TypeError ?s1)"
      using Some by (simp add: updateMessage_def Let_def)
    with s1 show ?thesis by blast
  qed
qed

lemma dispatch_in_sync:
  fixes decode :: "'c \<Rightarrow> string"
  assumes "in_sync s" and "fresh_id_safe e"
  shows "(\<exists>s'. dispatch decode e s = Inr s' \<and> in_sync s')
       \<or> (\<exists>s'. dispatch decode e s = Inl (TypeError s') \<and> in_sync s')"
proof (cases e)
  case (Send message resp)
  with send_returns [OF assms(1), of decode message None resp] show ?thesis by auto
next
  case (Edit index newText resp)
  with edit_returns [OF assms(1), of decode index newText resp] show ?thesis by auto
qed (use assms in \<open>simp_all add: in_sync_add in_sync_select in_sync_rename
       in_sync_request_delete in_sync_confirm in_sync_close in_sync_llm in_sync_models\<close>)

lemma run_in_sync:
  fixes decode :: "'c \<Rightarrow> string"
  assumes "in_sync s" and "list_all fresh_id_safe es"
  shows "\<exists>s'. run decode es s = Inr s' \<and> in_sync s'"
  using assms
proof (induction es arbitrary: s)
  case Nil
  then show ?case by simp
next
  case (Cons e es)
  from Cons.prems have e: "fresh_id_safe e" and es: "list_all fresh_id_safe es"
    by simp_all
  from dispatch_in_sync [OF Cons.prems(1) e, of decode]
  show ?case
  proof
    assume "\<exists>s'. dispatch decode e s = Inr s' \<and> in_sync s'"
    then obtain s' where "dispatch decode e s = Inr s'" "in_sync s'" by blast
    with Cons.IH [OF _ es, of s'] show ?thesis by simp
  next
    assume "\<exists>s'. dispatch decode e s = Inl (TypeError s') \<and> in_sync s'"
    then obtain s' where "dispatch decode e s = Inl (TypeError s')" "in_sync s'" by blast
    with Cons.IH [OF _ es, of s'] show ?thesis by simp
  qed
qed


lemma loads_back:
  assumes "in_sync s"
  shows "loadAll (localStorage s) = Inr (chats_json (chats s))"
  using assms loadAll_saveAll [of "chats s"]
  by (simp add: in_sync_def safe_ids_def list_all_iff)

lemma safe_ids_samples: "safe_ids [thread_a, thread_b]"
  by (simp add: safe_ids_def safe_id_def max_safe_integer_def thread_a_def thread_b_def)




text \<open>
  Claim C9. Saving a collection and loading the text gives the collection back; and
  after every sequence of events on a mounted component (thread creation and deletion,
  and every other operation) the stored text is the saved form of the collection in
  memory, and loads back to it.
\<close>

theorem persistence_roundtrip:
  fixes decode :: "'c \<Rightarrow> string"
  assumes "safe_ids cs" and "list_all fresh_id_safe events"
  shows "loadAll (Some (saveAll cs)) = Inr (chats_json cs)
       \<and> chats_of_json (chats_json cs) = Some cs
       \<and> (\<exists>s. run decode events (initialState cs) = Inr s
              \<and> localStorage s = Some (saveAll (chats s))
              \<and> loadAll (localStorage s) = Inr (chats_json (chats s))
              \<and> chats_of_json (chats_json (chats s)) = Some (chats s))"
proof (intro conjI)
  show "loadAll (Some (saveAll cs)) = Inr (chats_json cs)"
    using assms(1) loadAll_saveAll [of cs] by (simp add: safe_ids_def list_all_iff)
  show "chats_of_json (chats_json cs) = Some cs"
    by (rule chats_of_json_inverse)
  from run_in_sync [OF in_sync_initial [OF assms(1)] assms(2), of decode]
  obtain s where s: "run decode events (initialState cs) = Inr s" "in_sync s"
    by blast
  from s(2) have "localStorage s = Some (saveAll (chats s))"
    by (simp add: in_sync_def)
  with s loads_back [OF s(2)] chats_of_json_inverse [of "chats s"]
  show "\<exists>s. run decode events (initialState cs) = Inr s
              \<and> localStorage s = Some (saveAll (chats s))
              \<and> loadAll (localStorage s) = Inr (chats_json (chats s))
              \<and> chats_of_json (chats_json (chats s)) = Some (chats s)"
    by blast
qed

theorem persistence_roundtrip_witness:
  "safe_ids [thread_a, thread_b]
   \<and> list_all fresh_id_safe
        [AddChat 1700000001000 ''11/15/2023'', DeleteChat (id' thread_a), ConfirmDelete
           :: string event]
   \<and> loadAll (Some (saveAll [thread_a, thread_b])) = Inr (chats_json [thread_a, thread_b])
   \<and> chats (projr (run id
         [AddChat 1700000001000 ''11/15/2023'', DeleteChat (id' thread_a), ConfirmDelete]
         (initialState [thread_a, thread_b]))) = [thread_b, thread_c]
   \<and> localStorage (projr (run id
         [AddChat 1700000001000 ''11/15/2023'', DeleteChat (id' thread_a), ConfirmDelete]
         (initialState [thread_a, thread_b]))) = Some (saveAll [thread_b, thread_c])
   \<and> loadAll (Some (saveAll [thread_b, thread_c])) = Inr (chats_json [thread_b, thread_c])"
proof -
  let ?events = "[AddChat 1700000001000 ''11/15/2023'', DeleteChat (id' thread_a), ConfirmDelete]
                   :: string event list"
  have fresh: "list_all fresh_id_safe ?events"
    by (simp add: safe_id_def max_safe_integer_def)
  have "(of_char (digit_char 3) :: nat) = of_char CHR ''3''"
    by (simp add: of_char_digit_char)
  then have "digit_char 3 = CHR ''3''"
    by (simp only: of_char_eq_iff)
  then have "show_nat 3 = ''3''"
    by (simp add: show_nat.simps [of 3])
  then have three: "show_nat (Suc (Suc (Suc 0))) = ''3''"
    by (simp add: numeral_3_eq_3)
  have run: "run id ?events (initialState [thread_a, thread_b])
      = Inr ((initialState [thread_b, thread_c])
               \<lparr>isToastVisible := True, toastMessage := ''Chat deleted successfully!''\<rparr>)"
    by (simp add: handleAddChat_def handleDeleteChat_def confirmDeleteChat_def setChats_def
          Let_def initialState_def three thread_a_def thread_b_def thread_c_def)
  from persistence_roundtrip [OF safe_ids_samples fresh, of id]
  have "loadAll (Some (saveAll [thread_a, thread_b])) = Inr (chats_json [thread_a, thread_b])"
    and "loadAll (localStorage (projr (run id ?events (initialState [thread_a, thread_b]))))
           = Inr (chats_json (chats (projr (run id ?events (initialState [thread_a, thread_b])))))"
    by auto
  then show ?thesis
    using safe_ids_samples fresh unfolding run by (simp add: initialState_def)
qed

subsection \<open>Edits, failed sends and chunk updates\<close>

lemma with_messages_twice:
  "with_messages sel a (with_messages sel b cs) = with_messages sel a cs"
  by (induction cs) (simp_all add: with_messages_def)

lemma stored_loads_back:
  assumes "safe_ids cs"
  shows "loadAll (Some (saveAll (with_messages sel ms cs))) = Inr (chats_json (with_messages sel ms cs))"
proof -
  have "safe_ids (with_messages sel ms cs)"
    using assms by (simp add: safe_ids_with_messages)
  then show ?thesis
    using loadAll_saveAll [of "with_messages sel ms cs"]
    by (simp add: safe_ids_def list_all_iff)
qed

lemma mid_stream_eq:
  "mid_stream = (session (Some (id' thread_b))
                   [\<lparr>text = ''hi'', isUser = True\<rparr>, \<lparr>text = ''Hel'', isUser = False\<rparr>])
                 \<lparr>chats := [thread_a, thread_b\<lparr>messages' := [\<lparr>text = ''hi'', isUser = True\<rparr>]\<rparr>],
                  localStorage := Some (saveAll
                     [thread_a, thread_b\<lparr>messages' := [\<lparr>text = ''hi'', isUser = True\<rparr>]\<rparr>])\<rparr>"
  by (simp add: mid_stream_def handleSendMessage_def before_request_def updatedChatMessages_def
        setChats_def with_messages_def chunk_update_def set_index_def session_def Let_def
        thread_a_def thread_b_def)

text \<open>
  Claim C2, as amended. Editing the message at an index \<open>i\<close> of the live view replaces
  its text, cuts the view to the \<open>i + 1\<close> messages up to it, makes the cut sequence the
  messages of the selected thread, in the collection and in \<open>localStorage\<close> (from where
  it loads back), and calls \<open>handleSendMessage\<close> once, with the new text and the cut
  sequence as history. That call is guarded like every send. With a model selected it
  issues exactly one request, whose history is the cut sequence, shows the cut sequence
  followed by the empty placeholder, and at the end of the stream stores the cut
  sequence followed by the reply. With the empty string as the selected model it issues
  no request, and the thread stays cut.
\<close>

theorem edit_truncates_and_resends:
  fixes s :: AppState and decode :: "'c \<Rightarrow> string" and resp :: "'c response"
    and i :: nat and newText :: string and sel :: int
  defines "trunc \<equiv> take i (messages s) @ [(messages s ! i)\<lparr>text := newText\<rparr>]"
  defines "stored \<equiv>
             map (\<lambda>chat. if id' chat = sel then chat\<lparr>messages' := trunc\<rparr> else chat) (chats s)"
  defines "s1 \<equiv> s\<lparr>messages := trunc, chats := stored, localStorage := Some (saveAll stored)\<rparr>"
  defines "reply \<equiv> \<lparr>text = concat (map decode (delivered resp)), isUser = False\<rparr>"
  assumes sel: "selectedChat s = Some sel" and i: "i < length (messages s)"
  shows "length trunc = i + 1
    \<and> (\<forall>c \<in> set stored. id' c = sel \<longrightarrow> messages' c = trunc)
    \<and> (sel \<in> id' ` set (chats s) \<longrightarrow> (\<exists>c \<in> set stored. id' c = sel \<and> messages' c = trunc))
    \<and> (safe_ids (chats s) \<longrightarrow>
          loadAll (Some (saveAll stored)) = Inr (chats_json stored)
          \<and> chats_of_json (chats_json stored) = Some stored)
    \<and> updateMessage decode i newText resp s
          = handleSendMessage decode newText (Some trunc) resp s1
    \<and> (selectedLLM s = [] \<longrightarrow>
          updateMessage decode i newText resp s = Inr \<lparr>requests = [], live = [], final = s1\<rparr>)
    \<and> (selectedLLM s \<noteq> [] \<longrightarrow>
          (\<exists>r. updateMessage decode i newText resp s = Inr r
             \<and> requests r = [\<lparr>content = newText, model = selectedLLM s,
                               history = trunc, chat_id = sel\<rparr>]
             \<and> live r \<noteq> []
             \<and> hd (live r) = s1\<lparr>messages := trunc @ [\<lparr>text = [], isUser = False\<rparr>]\<rparr>
             \<and> chats (final r) =
                 (if completed resp
                  then map (\<lambda>chat. if id' chat = sel then chat\<lparr>messages' := trunc @ [reply]\<rparr>
                                    else chat) (chats s)
                  else stored)))"
proof (intro conjI)
  have stored_eq: "stored = with_messages sel trunc (chats s)"
    by (simp add: stored_def with_messages_def)
  have tr: "take (i + 1)
              (map (\<lambda>(j, msg). if j = i then msg\<lparr>text := newText\<rparr> else msg)
                 (enumerate 0 (messages s))) = trunc"
    using i by (simp add: enumerate_replace take_update_last trunc_def)
  show len: "length trunc = i + 1"
    using i by (simp add: trunc_def)
  show "\<forall>c \<in> set stored. id' c = sel \<longrightarrow> messages' c = trunc"
    unfolding stored_eq using with_messages_selected by blast
  show "sel \<in> id' ` set (chats s) \<longrightarrow> (\<exists>c \<in> set stored. id' c = sel \<and> messages' c = trunc)"
    unfolding stored_eq using with_messages_present with_messages_selected by blast
  show "safe_ids (chats s) \<longrightarrow>
          loadAll (Some (saveAll stored)) = Inr (chats_json stored)
          \<and> chats_of_json (chats_json stored) = Some stored"
    unfolding stored_eq by (simp add: stored_loads_back chats_of_json_inverse)
  have last_text: "text (trunc ! i) = newText"
    using i by (simp add: trunc_def nth_append)
  have s1': "setChats (with_messages sel trunc) (s\<lparr>messages := trunc\<rparr>) = s1"
    by (simp add: setChats_def s1_def Let_def stored_eq)
  show call: "updateMessage decode i newText resp s
               = handleSendMessage decode newText (Some trunc) resp s1"
    unfolding updateMessage_def using sel len last_text i
    by (simp add: tr Let_def s1' del: One_nat_def)
  have sel1: "selectedChat s1 = Some sel" and llm_eq: "selectedLLM s1 = selectedLLM s"
    using sel by (simp_all add: s1_def)
  show "selectedLLM s = [] \<longrightarrow>
          updateMessage decode i newText resp s = Inr \<lparr>requests = [], live = [], final = s1\<rparr>"
    unfolding call using sel1 llm_eq by (simp add: handleSendMessage_def)
  show "selectedLLM s \<noteq> [] \<longrightarrow>
          (\<exists>r. updateMessage decode i newText resp s = Inr r
             \<and> requests r = [\<lparr>content = newText, model = selectedLLM s,
                               history = trunc, chat_id = sel\<rparr>]
             \<and> live r \<noteq> []
             \<and> hd (live r) = s1\<lparr>messages := trunc @ [\<lparr>text = [], isUser = False\<rparr>]\<rparr>
             \<and> chats (final r) =
                 (if completed resp
                  then map (\<lambda>chat. if id' chat = sel then chat\<lparr>messages' := trunc @ [reply]\<rparr>
                                    else chat) (chats s)
                  else stored))"
  proof
    assume llm: "selectedLLM s \<noteq> []"
    then have llm1: "selectedLLM s1 \<noteq> []" by (simp add: llm_eq)
    let ?s2 = "s1\<lparr>messages := trunc @ [\<lparr>text = [], isUser = False\<rparr>]\<rparr>"
    let ?states = "map (\<lambda>k. ?s2\<lparr>messages := trunc @
                   [\<lparr>text = concat (map decode (take k (delivered resp))), isUser = False\<rparr>]\<rparr>)
              [0..<Suc (length (delivered resp))]"
    let ?fin = "if completed resp
                then setChats (with_messages sel (trunc @ [reply])) (last ?states)
                else last ?states"
    let ?r = "\<lparr>requests = [\<lparr>content = newText, model = selectedLLM s, history = trunc,
                             chat_id = sel\<rparr>],
              live = ?states, final = ?fin\<rparr>"
    have run: "updateMessage decode i newText resp s = Inr ?r"
      unfolding call send_result [OF sel1 llm1, of decode newText "Some trunc" resp]
      by (simp add: updatedChatMessages_def before_request_Some llm_eq reply_def del: upt_Suc)
    have chats_last: "chats (last ?states) = stored"
      unfolding last_map_upt by (simp add: s1_def)
    have fin_chats: "chats ?fin =
                 (if completed resp
                  then map (\<lambda>chat. if id' chat = sel then chat\<lparr>messages' := trunc @ [reply]\<rparr>
                                    else chat) (chats s)
                  else stored)"
    proof (cases "completed resp")
      case True
      have "with_messages sel (trunc @ [reply]) stored
              = map (\<lambda>chat. if id' chat = sel then chat\<lparr>messages' := trunc @ [reply]\<rparr>
                                    else chat) (chats s)"
        unfolding stored_eq with_messages_twice by (simp add: with_messages_def)
      with True chats_last show ?thesis
        by (simp add: setChats_def Let_def del: upt_Suc)
    next
      case False
      with chats_last show ?thesis by (simp del: upt_Suc)
    qed
    have hd_live: "hd ?states = ?s2"
      unfolding hd_map_upt by simp
    have "requests ?r = [\<lparr>content = newText, model = selectedLLM s, history = trunc, chat_id = sel\<rparr>]"
      and "live ?r \<noteq> []" and "hd (live ?r) = ?s2" and "chats (final ?r) =
                 (if completed resp
                  then map (\<lambda>chat. if id' chat = sel then chat\<lparr>messages' := trunc @ [reply]\<rparr>
                                    else chat) (chats s)
                  else stored)"
      using hd_live fin_chats by (simp_all del: upt_Suc)
    with run show "\<exists>r. updateMessage decode i newText resp s = Inr r
             \<and> requests r = [\<lparr>content = newText, model = selectedLLM s,
                               history = trunc, chat_id = sel\<rparr>]
             \<and> live r \<noteq> []
             \<and> hd (live r) = s1\<lparr>messages := trunc @ [\<lparr>text = [], isUser = False\<rparr>]\<rparr>
             \<and> chats (final r) =
                 (if completed resp
                  then map (\<lambda>chat. if id' chat = sel then chat\<lparr>messages' := trunc @ [reply]\<rparr>
                                    else chat) (chats s)
                  else stored)"
      by blast
  qed
qed

theorem edit_truncates_and_resends_witness:
  "selectedChat (session (Some (id' thread_a)) (messages' thread_a)) = Some (id' thread_a)
   \<and> 0 < length (messages (session (Some (id' thread_a)) (messages' thread_a)))
   \<and> selectedLLM (session (Some (id' thread_a)) (messages' thread_a)) \<noteq> []
   \<and> safe_ids (chats (session (Some (id' thread_a)) (messages' thread_a)))
   \<and> id' thread_a \<in> id' ` set (chats (session (Some (id' thread_a)) (messages' thread_a)))
   \<and> loadAll (Some (saveAll [thread_a\<lparr>messages' := [\<lparr>text = ''hello'', isUser = True\<rparr>]\<rparr>,
                               thread_b]))
        = Inr (chats_json [thread_a\<lparr>messages' := [\<lparr>text = ''hello'', isUser = True\<rparr>]\<rparr>,
                           thread_b])
   \<and> (\<exists>r. updateMessage id 0 ''hello'' (Response True (Some ([''yo''], EndOfData)))
              (session (Some (id' thread_a)) (messages' thread_a)) = Inr r
          \<and> requests r = [\<lparr>content = ''hello'', model = ''a'',
                            history = [\<lparr>text = ''hello'', isUser = True\<rparr>],
                            chat_id = id' thread_a\<rparr>]
          \<and> messages (hd (live r))
               = [\<lparr>text = ''hello'', isUser = True\<rparr>, \<lparr>text = [], isUser = False\<rparr>]
          \<and> chats (hd (live r))
               = [thread_a\<lparr>messages' := [\<lparr>text = ''hello'', isUser = True\<rparr>]\<rparr>, thread_b]
          \<and> chats (final r)
               = [thread_a\<lparr>messages' := [\<lparr>text = ''hello'', isUser = True\<rparr>,
                                           \<lparr>text = ''yo'', isUser = False\<rparr>]\<rparr>, thread_b])
   \<and> selectedChat blank_model_session = Some (id' thread_a)
   \<and> 0 < length (messages blank_model_session)
   \<and> selectedLLM blank_model_session = []
   \<and> requests (projr (updateMessage id 0 ''hello'' (Response True (Some ([''yo''], EndOfData)))
                         blank_model_session)) = []"
proof -
  let ?S = "session (Some (id' thread_a)) (messages' thread_a)"
  let ?resp = "Response True (Some ([''yo''], EndOfData)) :: string response"
  have sel: "selectedChat ?S = Some (id' thread_a)"
    by (simp add: session_def)
  have i: "0 < length (messages ?S)"
    by (simp add: session_def thread_a_def)
  have llm: "selectedLLM ?S \<noteq> []" and m: "selectedLLM ?S = ''a''"
    by (simp_all add: session_def)
  have safe: "safe_ids (chats ?S)"
    by (simp add: session_def safe_ids_samples)
  have mem: "id' thread_a \<in> id' ` set (chats ?S)"
    by (simp add: session_def)
  have tr: "take 0 (messages ?S) @ [(messages ?S ! 0)\<lparr>text := ''hello''\<rparr>]
          = [\<lparr>text = ''hello'', isUser = True\<rparr>]"
    by (simp add: session_def thread_a_def)
  have st: "map (\<lambda>chat. if id' chat = id' thread_a
                        then chat\<lparr>messages' := [\<lparr>text = ''hello'', isUser = True\<rparr>]\<rparr> else chat)
              (chats ?S)
          = [thread_a\<lparr>messages' := [\<lparr>text = ''hello'', isUser = True\<rparr>]\<rparr>, thread_b]"
    by (simp add: session_def thread_a_def thread_b_def)
  have fin: "map (\<lambda>chat. if id' chat = id' thread_a
                        then chat\<lparr>messages' := [\<lparr>text = ''hello'', isUser = True\<rparr>]
                                    @ [\<lparr>text = concat (map id (delivered ?resp)), isUser = False\<rparr>]\<rparr>
                        else chat)
              (chats ?S)
          = [thread_a\<lparr>messages' := [\<lparr>text = ''hello'', isUser = True\<rparr>,
                                      \<lparr>text = ''yo'', isUser = False\<rparr>]\<rparr>, thread_b]"
    by (simp add: session_def thread_a_def thread_b_def delivered_def)
  have c: "completed ?resp"
    by (simp add: completed_def)
  note inst = edit_truncates_and_resends [OF sel i, of "''hello''" id ?resp,
      unfolded tr st fin m]
  have load: "loadAll (Some (saveAll [thread_a\<lparr>messages' := [\<lparr>text = ''hello'', isUser = True\<rparr>]\<rparr>,
                               thread_b]))
        = Inr (chats_json [thread_a\<lparr>messages' := [\<lparr>text = ''hello'', isUser = True\<rparr>]\<rparr>,
                           thread_b])"
    using inst safe by blast
  from inst obtain r where r: "updateMessage id 0 ''hello'' ?resp ?S = Inr r"
     "requests r = [\<lparr>content = ''hello'', model = ''a'',
                            history = [\<lparr>text = ''hello'', isUser = True\<rparr>],
                            chat_id = id' thread_a\<rparr>]"
     "hd (live r) = ?S\<lparr>messages := [\<lparr>text = ''hello'', isUser = True\<rparr>],
                       chats := [thread_a\<lparr>messages' := [\<lparr>text = ''hello'', isUser = True\<rparr>]\<rparr>,
                                 thread_b],
                       localStorage := Some (saveAll
                                [thread_a\<lparr>messages' := [\<lparr>text = ''hello'', isUser = True\<rparr>]\<rparr>,
                                 thread_b]),
                       messages := [\<lparr>text = ''hello'', isUser = True\<rparr>]
                                   @ [\<lparr>text = [], isUser = False\<rparr>]\<rparr>"
     "chats (final r) = (if completed ?resp
           then [thread_a\<lparr>messages' := [\<lparr>text = ''hello'', isUser = True\<rparr>,
                                      \<lparr>text = ''yo'', isUser = False\<rparr>]\<rparr>, thread_b]
           else [thread_a\<lparr>messages' := [\<lparr>text = ''hello'', isUser = True\<rparr>]\<rparr>, thread_b])"
    by blast
  have "messages (hd (live r))
               = [\<lparr>text = ''hello'', isUser = True\<rparr>, \<lparr>text = [], isUser = False\<rparr>]"
    and "chats (hd (live r))
               = [thread_a\<lparr>messages' := [\<lparr>text = ''hello'', isUser = True\<rparr>]\<rparr>, thread_b]"
    unfolding r(3) by simp_all
  moreover have "chats (final r)
               = [thread_a\<lparr>messages' := [\<lparr>text = ''hello'', isUser = True\<rparr>,
                                           \<lparr>text = ''yo'', isUser = False\<rparr>]\<rparr>, thread_b]"
    unfolding r(4) using c by simp
  moreover have sel': "selectedChat blank_model_session = Some (id' thread_a)"
    and i': "0 < length (messages blank_model_session)"
    and llm': "selectedLLM blank_model_session = []"
    by (simp_all add: blank_model_session_def fetchModels_def initialState_def
          handleSelectChat_def thread_a_def thread_b_def)
  moreover have "requests (projr (updateMessage id 0 ''hello'' ?resp blank_model_session)) = []"
  proof -
    from edit_truncates_and_resends [OF sel' i', of "''hello''" id ?resp] llm'
    obtain fin where "updateMessage id 0 ''hello'' ?resp blank_model_session
                        = Inr \<lparr>requests = [], live = [], final = fin\<rparr>"
      by blast
    then show ?thesis by simp
  qed
  ultimately show ?thesis
    using r(1,2) sel i llm safe mem load by blast
qed

text \<open>
  Claim C2 as stated has every edit trigger exactly one send. When the model list is
  \<open>["", "b"]\<close> the picker and the chat are rendered with the empty string as the
  selected model; an edit then cuts and stores the thread and issues no request.
\<close>

theorem edit_blank_model_counterexample:
  "models blank_model_session = [[], ''b'']
   \<and> main_pane_of blank_model_session = ModelPickerAndChat
   \<and> selectedChat blank_model_session = Some (id' thread_a)
   \<and> messages blank_model_session = messages' thread_a
   \<and> length (messages' thread_a) = 2
   \<and> updateMessage id 0 ''hello'' (Response True (Some ([''yo''], EndOfData)))
         blank_model_session
       = Inr \<lparr>requests = [], live = [],
              final = blank_model_session
                 \<lparr>messages := [\<lparr>text = ''hello'', isUser = True\<rparr>],
                  chats := [thread_a\<lparr>messages' := [\<lparr>text = ''hello'', isUser = True\<rparr>]\<rparr>,
                            thread_b],
                  localStorage := Some (saveAll
                     [thread_a\<lparr>messages' := [\<lparr>text = ''hello'', isUser = True\<rparr>]\<rparr>,
                      thread_b])\<rparr>\<rparr>"
  by (simp add: blank_model_session_def fetchModels_def initialState_def handleSelectChat_def
        main_pane_of_def updateMessage_def handleSendMessage_def setChats_def with_messages_def
        Let_def thread_a_def thread_b_def enumerate_replace)

text \<open>
  Claim C3, as amended. When a send gets a response with a non-success status or without
  a body, the call ends in the state reached before the request went out. The selected
  thread's stored sequence, in the collection and in \<open>localStorage\<close> (from where it loads
  back), is the live view as it was before the send followed by the user's message, and
  nothing after it; the live view shows that sequence followed by the assistant
  placeholder with empty text; no other part of the state differs. When the view showed
  the stored sequence, the stored sequence gains the user's message and nothing else;
  otherwise it also takes what the view held, such as the empty placeholder an earlier
  failed send left there.
\<close>

theorem send_fails_before_body:
  fixes s :: AppState and decode :: "'c \<Rightarrow> string" and body :: "('c list \<times> stream_end) option"
    and message :: string and sel :: int and ok :: bool
  defines "hist \<equiv> messages s @ [\<lparr>text = message, isUser = True\<rparr>]"
  defines "stored \<equiv>
             map (\<lambda>chat. if id' chat = sel then chat\<lparr>messages' := hist\<rparr> else chat) (chats s)"
  defines "s' \<equiv> s\<lparr>chats := stored, localStorage := Some (saveAll stored),
                   messages := hist @ [\<lparr>text = [], isUser = False\<rparr>]\<rparr>"
  assumes sel: "selectedChat s = Some sel" and llm: "selectedLLM s \<noteq> []"
    and fails: "\<not> ok \<or> body = None"
  shows "handleSendMessage decode message None (Response ok body) s
           = Inr \<lparr>requests = [\<lparr>content = message, model = selectedLLM s,
                                history = hist, chat_id = sel\<rparr>],
                  live = [s'], final = s'\<rparr>
       \<and> (\<forall>c \<in> set stored. id' c = sel \<longrightarrow> messages' c = hist)
       \<and> (sel \<in> id' ` set (chats s) \<longrightarrow> (\<exists>c \<in> set stored. id' c = sel \<and> messages' c = hist))
       \<and> (safe_ids (chats s) \<longrightarrow>
             loadAll (Some (saveAll stored)) = Inr (chats_json stored)
             \<and> chats_of_json (chats_json stored) = Some stored)
       \<and> ((\<forall>c \<in> set (chats s). id' c = sel \<longrightarrow> messages' c = messages s) \<longrightarrow>
            stored = map (\<lambda>c. if id' c = sel
                               then c\<lparr>messages' := messages' c @ [\<lparr>text = message, isUser = True\<rparr>]\<rparr>
                               else c) (chats s))"
proof (intro conjI)
  have stored_eq: "stored = with_messages sel hist (chats s)"
    by (simp add: stored_def with_messages_def)
  have d: "delivered (Response ok body) = []"
    using fails by (cases body) (auto simp: delivered_def)
  have c: "\<not> completed (Response ok body)"
    using fails by (cases body) (auto simp: completed_def)
  have b: "before_request sel message None s = s'"
    by (simp add: before_request_None s'_def hist_def stored_eq)
  have same: "s'\<lparr>messages := hist @ [\<lparr>text = [], isUser = False\<rparr>]\<rparr> = s'"
    by (simp add: s'_def)
  show "handleSendMessage decode message None (Response ok body) s
           = Inr \<lparr>requests = [\<lparr>content = message, model = selectedLLM s,
                                history = hist, chat_id = sel\<rparr>],
                  live = [s'], final = s'\<rparr>"
    unfolding send_result [OF sel llm, of decode message None "Response ok body"]
    by (simp add: d c b same updatedChatMessages_def hist_def [symmetric])
  show "\<forall>c \<in> set stored. id' c = sel \<longrightarrow> messages' c = hist"
    unfolding stored_eq using with_messages_selected by blast
  show "sel \<in> id' ` set (chats s) \<longrightarrow> (\<exists>c \<in> set stored. id' c = sel \<and> messages' c = hist)"
    unfolding stored_eq using with_messages_present with_messages_selected by blast
  show "safe_ids (chats s) \<longrightarrow>
             loadAll (Some (saveAll stored)) = Inr (chats_json stored)
             \<and> chats_of_json (chats_json stored) = Some stored"
    unfolding stored_eq by (simp add: stored_loads_back chats_of_json_inverse)
  show "(\<forall>c \<in> set (chats s). id' c = sel \<longrightarrow> messages' c = messages s) \<longrightarrow>
            stored = map (\<lambda>c. if id' c = sel
                               then c\<lparr>messages' := messages' c @ [\<lparr>text = message, isUser = True\<rparr>]\<rparr>
                               else c) (chats s)"
    by (simp add: stored_def hist_def)
qed

theorem send_fails_before_body_witness:
  "selectedChat (session (Some (id' thread_a)) (messages' thread_a)) = Some (id' thread_a)
   \<and> selectedLLM (session (Some (id' thread_a)) (messages' thread_a)) \<noteq> []
   \<and> safe_ids (chats (session (Some (id' thread_a)) (messages' thread_a)))
   \<and> id' thread_a \<in> id' ` set (chats (session (Some (id' thread_a)) (messages' thread_a)))
   \<and> handleSendMessage id ''again'' None (Response False (Some ([''x''], EndOfData)))
         (session (Some (id' thread_a)) (messages' thread_a))
       = Inr \<lparr>requests = [\<lparr>content = ''again'', model = ''a'',
                              history = messages' thread_a @ [\<lparr>text = ''again'', isUser = True\<rparr>],
                              chat_id = id' thread_a\<rparr>],
               live = [(session (Some (id' thread_a))
                          (messages' thread_a @ [\<lparr>text = ''again'', isUser = True\<rparr>,
                                                 \<lparr>text = [], isUser = False\<rparr>]))
                        \<lparr>chats := [thread_a\<lparr>messages' := messages' thread_a
                                        @ [\<lparr>text = ''again'', isUser = True\<rparr>]\<rparr>, thread_b],
                         localStorage := Some (saveAll
                                    [thread_a\<lparr>messages' := messages' thread_a
                                        @ [\<lparr>text = ''again'', isUser = True\<rparr>]\<rparr>, thread_b])\<rparr>],
               final = (session (Some (id' thread_a))
                          (messages' thread_a @ [\<lparr>text = ''again'', isUser = True\<rparr>,
                                                 \<lparr>text = [], isUser = False\<rparr>]))
                        \<lparr>chats := [thread_a\<lparr>messages' := messages' thread_a
                                        @ [\<lparr>text = ''again'', isUser = True\<rparr>]\<rparr>, thread_b],
                         localStorage := Some (saveAll
                                    [thread_a\<lparr>messages' := messages' thread_a
                                        @ [\<lparr>text = ''again'', isUser = True\<rparr>]\<rparr>, thread_b])\<rparr>\<rparr>
   \<and> loadAll (Some (saveAll [thread_a\<lparr>messages' := messages' thread_a
                                        @ [\<lparr>text = ''again'', isUser = True\<rparr>]\<rparr>, thread_b]))
       = Inr (chats_json [thread_a\<lparr>messages' := messages' thread_a
                                        @ [\<lparr>text = ''again'', isUser = True\<rparr>]\<rparr>, thread_b])"
proof -
  let ?S = "session (Some (id' thread_a)) (messages' thread_a)"
  have sel: "selectedChat ?S = Some (id' thread_a)"
    and llm: "selectedLLM ?S \<noteq> []" and m: "selectedLLM ?S = ''a''"
    by (simp_all add: session_def)
  have fails: "\<not> False \<or> Some ([''x''], EndOfData) = None"
    by simp
  have safe: "safe_ids (chats ?S)"
    by (simp add: session_def safe_ids_samples)
  have mem: "id' thread_a \<in> id' ` set (chats ?S)"
    by (simp add: session_def)
  have view: "messages ?S = messages' thread_a"
    by (simp add: session_def)
  have st: "map (\<lambda>chat. if id' chat = id' thread_a
                        then chat\<lparr>messages' := messages' thread_a
                                     @ [\<lparr>text = ''again'', isUser = True\<rparr>]\<rparr> else chat)
              (chats ?S)
          = [thread_a\<lparr>messages' := messages' thread_a @ [\<lparr>text = ''again'', isUser = True\<rparr>]\<rparr>,
             thread_b]"
    by (simp add: session_def thread_a_def thread_b_def)
  note inst = send_fails_before_body [OF sel llm fails, of id "''again''", unfolded view st m]
  have run: "handleSendMessage id ''again'' None (Response False (Some ([''x''], EndOfData))) ?S
       = Inr \<lparr>requests = [\<lparr>content = ''again'', model = ''a'',
                              history = messages' thread_a @ [\<lparr>text = ''again'', isUser = True\<rparr>],
                              chat_id = id' thread_a\<rparr>],
               live = [(session (Some (id' thread_a))
                          (messages' thread_a @ [\<lparr>text = ''again'', isUser = True\<rparr>,
                                                 \<lparr>text = [], isUser = False\<rparr>]))
                        \<lparr>chats := [thread_a\<lparr>messages' := messages' thread_a
                                        @ [\<lparr>text = ''again'', isUser = True\<rparr>]\<rparr>, thread_b],
                         localStorage := Some (saveAll
                                    [thread_a\<lparr>messages' := messages' thread_a
                                        @ [\<lparr>text = ''again'', isUser = True\<rparr>]\<rparr>, thread_b])\<rparr>],
               final = (session (Some (id' thread_a))
                          (messages' thread_a @ [\<lparr>text = ''again'', isUser = True\<rparr>,
                                                 \<lparr>text = [], isUser = False\<rparr>]))
                        \<lparr>chats := [thread_a\<lparr>messages' := messages' thread_a
                                        @ [\<lparr>text = ''again'', isUser = True\<rparr>]\<rparr>, thread_b],
                         localStorage := Some (saveAll
                                    [thread_a\<lparr>messages' := messages' thread_a
                                        @ [\<lparr>text = ''again'', isUser = True\<rparr>]\<rparr>, thread_b])\<rparr>\<rparr>"
    unfolding conjunct1 [OF inst] by (simp add: session_def)
  have load: "loadAll (Some (saveAll [thread_a\<lparr>messages' := messages' thread_a
                                        @ [\<lparr>text = ''again'', isUser = True\<rparr>]\<rparr>, thread_b]))
       = Inr (chats_json [thread_a\<lparr>messages' := messages' thread_a
                                        @ [\<lparr>text = ''again'', isUser = True\<rparr>]\<rparr>, thread_b])"
    using inst safe by blast
  from sel llm safe mem run load show ?thesis by blast
qed

text \<open>
  Claim C3 as stated has the stored sequence gain no assistant entry. After one failed
  send the view ends with the empty placeholder, which is not stored. A second failed
  send stores the view followed by its own message, so the stored sequence goes from
  "hi" to "hi", the empty assistant message, "again".
\<close>

theorem retry_stores_placeholder_counterexample:
  "selectedChat failed_once = Some (id' thread_b)
   \<and> selectedLLM failed_once = ''a''
   \<and> map messages' (chats failed_once)
       = [messages' thread_a, [\<lparr>text = ''hi'', isUser = True\<rparr>]]
   \<and> messages failed_once = [\<lparr>text = ''hi'', isUser = True\<rparr>, \<lparr>text = [], isUser = False\<rparr>]
   \<and> \<not> isl (handleSendMessage id ''again'' None (Response False None :: string response)
               failed_once)
   \<and> map messages'
       (chats (final (projr (handleSendMessage id ''again'' None
                               (Response False None :: string response) failed_once))))
       = [messages' thread_a,
          [\<lparr>text = ''hi'', isUser = True\<rparr>, \<lparr>text = [], isUser = False\<rparr>,
           \<lparr>text = ''again'', isUser = True\<rparr>]]
   \<and> messages
       (final (projr (handleSendMessage id ''again'' None
                        (Response False None :: string response) failed_once)))
       = [\<lparr>text = ''hi'', isUser = True\<rparr>, \<lparr>text = [], isUser = False\<rparr>,
          \<lparr>text = ''again'', isUser = True\<rparr>, \<lparr>text = [], isUser = False\<rparr>]"
  by (simp add: failed_once_def handleSendMessage_def before_request_def updatedChatMessages_def
        setChats_def with_messages_def session_def Let_def thread_a_def thread_b_def)

text \<open>
  Claim C10, as amended. A chunk update writes the assistant message with the
  accumulated text at the placeholder index of the view that is current when the chunk
  arrives. When the index is inside that view, the view keeps its length, every message
  at another index is the same, and no other part of the state changes; this is so at
  every step of a send during which no other handler replaces the view, the index being
  the length of the history sent with the request. When the view has been replaced and
  the index is its length, the update appends the message; when the view is shorter
  still, the assignment falls beyond its end.
\<close>

theorem chunk_update_frame:
  fixes s t :: AppState and decode :: "'c \<Rightarrow> string" and resp :: "'c response"
    and message acc :: string and upd :: "Message list option" and i k :: nat
    and r :: SendResult
  defines "idx \<equiv> length (updatedChatMessages message upd s)"
  shows "(i < length (messages t) \<longrightarrow>
            (\<exists>t'. chunk_update i acc t = Inr t'
               \<and> length (messages t') = length (messages t)
               \<and> (\<forall>j < length (messages t). j \<noteq> i \<longrightarrow> messages t' ! j = messages t ! j)
               \<and> messages t' ! i = \<lparr>text = acc, isUser = False\<rparr>
               \<and> t' = t\<lparr>messages := messages t'\<rparr>))
       \<and> (i = length (messages t) \<longrightarrow>
            chunk_update i acc t
              = Inr (t\<lparr>messages := messages t @ [\<lparr>text = acc, isUser = False\<rparr>]\<rparr>))
       \<and> (length (messages t) < i \<longrightarrow> chunk_update i acc t = Inl SparseArray)
       \<and> (handleSendMessage decode message upd resp s = Inr r \<and> Suc k < length (live r) \<longrightarrow>
            idx < length (messages (live r ! k))
            \<and> chunk_update idx (concat (map decode (take (Suc k) (delivered resp)))) (live r ! k)
                = Inr (live r ! Suc k)
            \<and> length (messages (live r ! Suc k)) = length (messages (live r ! k))
            \<and> (\<forall>j < length (messages (live r ! k)).
                  j \<noteq> idx \<longrightarrow> messages (live r ! Suc k) ! j = messages (live r ! k) ! j)
            \<and> messages (live r ! Suc k) ! idx
                = \<lparr>text = concat (map decode (take (Suc k) (delivered resp))), isUser = False\<rparr>
            \<and> live r ! Suc k = (live r ! k)\<lparr>messages := messages (live r ! Suc k)\<rparr>)"
proof (intro conjI impI)
  assume "i < length (messages t)"
  then show "\<exists>t'. chunk_update i acc t = Inr t'
               \<and> length (messages t') = length (messages t)
               \<and> (\<forall>j < length (messages t). j \<noteq> i \<longrightarrow> messages t' ! j = messages t ! j)
               \<and> messages t' ! i = \<lparr>text = acc, isUser = False\<rparr>
               \<and> t' = t\<lparr>messages := messages t'\<rparr>"
    by (simp add: chunk_update_def set_index_def)
next
  assume "i = length (messages t)"
  then show "chunk_update i acc t
              = Inr (t\<lparr>messages := messages t @ [\<lparr>text = acc, isUser = False\<rparr>]\<rparr>)"
    by (simp add: chunk_update_def set_index_def)
next
  assume "length (messages t) < i"
  then show "chunk_update i acc t = Inl SparseArray"
    by (simp add: chunk_update_def set_index_def)
next
  assume flow: "handleSendMessage decode message upd resp s = Inr r \<and> Suc k < length (live r)"
  then have run: "handleSendMessage decode message upd resp s = Inr r"
    and k: "Suc k < length (live r)"
    by simp_all
  let ?hist = "updatedChatMessages message upd s"
  have guard: "selectedChat s \<noteq> None \<and> selectedLLM s \<noteq> []"
  proof (rule ccontr)
    assume "\<not> (selectedChat s \<noteq> None \<and> selectedLLM s \<noteq> [])"
    then have "handleSendMessage decode message upd resp s
                 = Inr \<lparr>requests = [], live = [], final = s\<rparr>"
      by (auto simp: handleSendMessage_def split: option.splits)
    with run have "live r = []" by auto
    with k show False by simp
  qed
  then obtain sel where sel: "selectedChat s = Some sel" and llm: "selectedLLM s \<noteq> []"
    by auto
  let ?s2 = "before_request sel message upd s"
  let ?f = "\<lambda>k. ?s2\<lparr>messages := ?hist @
              [\<lparr>text = concat (map decode (take k (delivered resp))), isUser = False\<rparr>]\<rparr>"
  have live_r: "live r = map ?f [0..<Suc (length (delivered resp))]"
    using run unfolding send_result [OF sel llm, of decode message upd resp] by auto
  have k': "Suc k < Suc (length (delivered resp))"
    using k unfolding live_r by simp
  have at_k: "live r ! k = ?f k" and at_Sk: "live r ! Suc k = ?f (Suc k)"
    using k' unfolding live_r by (simp_all add: nth_map_upt del: upt_Suc)
  have all: "idx < length (messages (live r ! k))
            \<and> chunk_update idx (concat (map decode (take (Suc k) (delivered resp)))) (live r ! k)
                = Inr (live r ! Suc k)
            \<and> length (messages (live r ! Suc k)) = length (messages (live r ! k))
            \<and> (\<forall>j < length (messages (live r ! k)).
                  j \<noteq> idx \<longrightarrow> messages (live r ! Suc k) ! j = messages (live r ! k) ! j)
            \<and> messages (live r ! Suc k) ! idx
                = \<lparr>text = concat (map decode (take (Suc k) (delivered resp))), isUser = False\<rparr>
            \<and> live r ! Suc k = (live r ! k)\<lparr>messages := messages (live r ! Suc k)\<rparr>"
    unfolding at_k at_Sk idx_def
    by (simp add: chunk_update_def set_index_def nth_append)
  from all show "idx < length (messages (live r ! k))" by blast
  from all show "chunk_update idx (concat (map decode (take (Suc k) (delivered resp)))) (live r ! k)
                = Inr (live r ! Suc k)" by blast
  from all show "length (messages (live r ! Suc k)) = length (messages (live r ! k))" by blast
  from all show "\<forall>j < length (messages (live r ! k)).
                  j \<noteq> idx \<longrightarrow> messages (live r ! Suc k) ! j = messages (live r ! k) ! j" by blast
  from all show "messages (live r ! Suc k) ! idx
                = \<lparr>text = concat (map decode (take (Suc k) (delivered resp))), isUser = False\<rparr>"
    by blast
  from all show "live r ! Suc k = (live r ! k)\<lparr>messages := messages (live r ! Suc k)\<rparr>" by blast
qed

theorem chunk_update_frame_witness:
  "handleSendMessage id ''hi'' None (Response True (Some ([''Hel'', ''lo''], EndOfData)))
       (session (Some (id' thread_b)) [])
     = Inr (projr (handleSendMessage id ''hi'' None
              (Response True (Some ([''Hel'', ''lo''], EndOfData)))
              (session (Some (id' thread_b)) [])))
   \<and> Suc 1 < length (live (projr (handleSendMessage id ''hi'' None
              (Response True (Some ([''Hel'', ''lo''], EndOfData)))
              (session (Some (id' thread_b)) []))))
   \<and> map messages (live (projr (handleSendMessage id ''hi'' None
              (Response True (Some ([''Hel'', ''lo''], EndOfData)))
              (session (Some (id' thread_b)) []))))
       = [[\<lparr>text = ''hi'', isUser = True\<rparr>, \<lparr>text = [], isUser = False\<rparr>],
          [\<lparr>text = ''hi'', isUser = True\<rparr>, \<lparr>text = ''Hel'', isUser = False\<rparr>],
          [\<lparr>text = ''hi'', isUser = True\<rparr>, \<lparr>text = ''Hello'', isUser = False\<rparr>]]
   \<and> chunk_update 1 ''Hello''
        (live (projr (handleSendMessage id ''hi'' None
              (Response True (Some ([''Hel'', ''lo''], EndOfData)))
              (session (Some (id' thread_b)) []))) ! 1)
       = Inr (live (projr (handleSendMessage id ''hi'' None
              (Response True (Some ([''Hel'', ''lo''], EndOfData)))
              (session (Some (id' thread_b)) []))) ! Suc 1)
   \<and> 1 < length (messages (handleSelectChat (id' thread_a) mid_stream))
   \<and> (\<exists>t'. chunk_update 1 ''Hello'' (handleSelectChat (id' thread_a) mid_stream) = Inr t'
          \<and> messages t' = [\<lparr>text = ''ping'', isUser = True\<rparr>, \<lparr>text = ''Hello'', isUser = False\<rparr>])
   \<and> 1 = length (messages (handleSelectChat (id' thread_b) mid_stream))
   \<and> chunk_update 1 ''Hello'' (handleSelectChat (id' thread_b) mid_stream)
       = Inr ((handleSelectChat (id' thread_b) mid_stream)
                \<lparr>messages := [\<lparr>text = ''hi'', isUser = True\<rparr>, \<lparr>text = ''Hello'', isUser = False\<rparr>]\<rparr>)
   \<and> length (messages (handleAddChat (id' thread_c) (date thread_c) mid_stream)) < 1
   \<and> chunk_update 1 ''Hello'' (handleAddChat (id' thread_c) (date thread_c) mid_stream)
       = Inl SparseArray"
proof -
  let ?s = "session (Some (id' thread_b)) []"
  let ?resp = "Response True (Some ([''Hel'', ''lo''], EndOfData)) :: string response"
  let ?r = "projr (handleSendMessage id ''hi'' None ?resp ?s)"
  have sel: "selectedChat ?s = Some (id' thread_b)" and llm: "selectedLLM ?s \<noteq> []"
    by (simp_all add: session_def)
  have hist: "updatedChatMessages ''hi'' None ?s = [\<lparr>text = ''hi'', isUser = True\<rparr>]"
    by (simp add: updatedChatMessages_def session_def)
  have d: "delivered ?resp = [''Hel'', ''lo'']"
    by (simp add: delivered_def)
  note res = send_result [OF sel llm, of id "''hi''" None ?resp, unfolded hist d]
  have run: "handleSendMessage id ''hi'' None ?resp ?s = Inr ?r"
    unfolding res by simp
  have k: "Suc 1 < length (live ?r)"
    unfolding res by simp
  have views: "map messages (live ?r)
       = [[\<lparr>text = ''hi'', isUser = True\<rparr>, \<lparr>text = [], isUser = False\<rparr>],
          [\<lparr>text = ''hi'', isUser = True\<rparr>, \<lparr>text = ''Hel'', isUser = False\<rparr>],
          [\<lparr>text = ''hi'', isUser = True\<rparr>, \<lparr>text = ''Hello'', isUser = False\<rparr>]]"
    unfolding res by (simp add: upt_rec)
  have acc: "concat (map id (take (Suc 1) (delivered ?resp))) = ''Hello''"
    by (simp add: d)
  have idx: "length (updatedChatMessages ''hi'' None ?s) = 1"
    by (simp add: hist)
  have va: "messages (handleSelectChat (id' thread_a) mid_stream)
              = [\<lparr>text = ''ping'', isUser = True\<rparr>, \<lparr>text = ''pong'', isUser = False\<rparr>]"
    and vb: "messages (handleSelectChat (id' thread_b) mid_stream) = [\<lparr>text = ''hi'', isUser = True\<rparr>]"
    and vc: "messages (handleAddChat (id' thread_c) (date thread_c) mid_stream) = []"
    unfolding mid_stream_eq
    by (simp_all add: handleSelectChat_def handleAddChat_def setChats_def session_def Let_def
          thread_a_def thread_b_def)
  have la: "1 < length (messages (handleSelectChat (id' thread_a) mid_stream))"
    and lb: "1 = length (messages (handleSelectChat (id' thread_b) mid_stream))"
    and lc: "length (messages (handleAddChat (id' thread_c) (date thread_c) mid_stream)) < 1"
    by (simp_all add: va vb vc)
  have flow: "chunk_update 1 ''Hello'' (live ?r ! 1) = Inr (live ?r ! Suc 1)"
    using chunk_update_frame [of _ _ _ id "''hi''" None ?resp ?s ?r 1] run k
    unfolding acc idx by blast
  from chunk_update_frame [of 1 "handleSelectChat (id' thread_a) mid_stream" "''Hello''"
      id "''hi''" None ?resp ?s ?r 1] la
  obtain t' where t': "chunk_update 1 ''Hello'' (handleSelectChat (id' thread_a) mid_stream) = Inr t'"
    "length (messages t') = length (messages (handleSelectChat (id' thread_a) mid_stream))"
    "\<forall>j < length (messages (handleSelectChat (id' thread_a) mid_stream)).
        j \<noteq> 1 \<longrightarrow> messages t' ! j = messages (handleSelectChat (id' thread_a) mid_stream) ! j"
    "messages t' ! 1 = \<lparr>text = ''Hello'', isUser = False\<rparr>"
    by blast
  have "length (messages t') = 2" and "messages t' ! 0 = \<lparr>text = ''ping'', isUser = True\<rparr>"
    using t'(2,3) by (simp_all add: va)
  with t'(4) have "messages t' = [\<lparr>text = ''ping'', isUser = True\<rparr>, \<lparr>text = ''Hello'', isUser = False\<rparr>]"
    by (simp add: list_eq_iff_nth_eq less_Suc_eq numeral_2_eq_2)
  with t'(1) have a: "\<exists>t'. chunk_update 1 ''Hello'' (handleSelectChat (id' thread_a) mid_stream) = Inr t'
          \<and> messages t' = [\<lparr>text = ''ping'', isUser = True\<rparr>, \<lparr>text = ''Hello'', isUser = False\<rparr>]"
    by blast
  have b: "chunk_update 1 ''Hello'' (handleSelectChat (id' thread_b) mid_stream)
       = Inr ((handleSelectChat (id' thread_b) mid_stream)
                \<lparr>messages := [\<lparr>text = ''hi'', isUser = True\<rparr>, \<lparr>text = ''Hello'', isUser = False\<rparr>]\<rparr>)"
    using chunk_update_frame [of 1 "handleSelectChat (id' thread_b) mid_stream" "''Hello''"
      id "''hi''" None ?resp ?s ?r 1] lb
    by (simp add: vb)
  have c: "chunk_update 1 ''Hello'' (handleAddChat (id' thread_c) (date thread_c) mid_stream)
       = Inl SparseArray"
    using chunk_update_frame [of 1 "handleAddChat (id' thread_c) (date thread_c) mid_stream"
      "''Hello''" id "''hi''" None ?resp ?s ?r 1] lc
    by blast
  from run k views flow la a lb b lc c show ?thesis by blast
qed

text \<open>
  Claim C10 as stated keeps the number of messages at every chunk update. When the user
  selects the thread again after the first chunk, the view becomes the stored sequence,
  of one message; the update for the second chunk, at index 1, appends to it, and so
  does the rest of the read loop.
\<close>

theorem interrupted_stream_counterexample:
  "messages mid_stream = [\<lparr>text = ''hi'', isUser = True\<rparr>, \<lparr>text = ''Hel'', isUser = False\<rparr>]
   \<and> messages (handleSelectChat (id' thread_b) mid_stream) = [\<lparr>text = ''hi'', isUser = True\<rparr>]
   \<and> \<not> isl (chunk_update 1 ''Hello'' (handleSelectChat (id' thread_b) mid_stream))
   \<and> messages (projr (chunk_update 1 ''Hello'' (handleSelectChat (id' thread_b) mid_stream)))
       = [\<lparr>text = ''hi'', isUser = True\<rparr>, \<lparr>text = ''Hello'', isUser = False\<rparr>]
   \<and> read_loop id 1 ''Hel'' [''lo''] (handleSelectChat (id' thread_b) mid_stream)
       = Inr (''Hello'', [(handleSelectChat (id' thread_b) mid_stream)
                \<lparr>messages := [\<lparr>text = ''hi'', isUser = True\<rparr>,
                               \<lparr>text = ''Hello'', isUser = False\<rparr>]\<rparr>])
   \<and> length (messages (handleSelectChat (id' thread_b) mid_stream)) = 1
   \<and> length (messages (projr (chunk_update 1 ''Hello''
                                 (handleSelectChat (id' thread_b) mid_stream)))) = 2"
  unfolding mid_stream_eq
  by (simp add: handleSelectChat_def chunk_update_def set_index_def session_def Let_def
        thread_a_def thread_b_def)

end
